theory Spec2Isabelle
  imports Main
begin

section \<open>The SPAdes wrapper: multi-pass assembly into one contigs file\<close>

text \<open>
  A shallow embedding of \<^verbatim>\<open>SpadesTool.assemble\<close> (\<^verbatim>\<open>tools/spades.py\<close>).
  The method works on files and on an external process, so the model passes a
  \<open>world\<close> explicitly: the file system, the number of scratch directories made so far,
  the list of external invocations and the warnings logged. Exceptions are values of
  type \<open>error\<close>, returned together with the world they leave behind.
\<close>

subsection \<open>Data\<close>

text \<open>
  A path is either a path the caller names, or a file inside the scratch directory
  that the \<open>d\<close>-th call of \<^verbatim>\<open>util.file.tmp_dir\<close> made
  (\<^verbatim>\<open>os.path.join(spades_dir, name)\<close>). A scratch directory is new when it is made,
  so no caller's path lies inside one.
\<close>

datatype path = Path string | InScratch nat string

text \<open>The arguments of one invocation, after \<^verbatim>\<open>map(str, args)\<close>:
  plain strings, and the scratch directory given to \<^verbatim>\<open>-o\<close>.\<close>

datatype arg = Arg string | ArgDir nat

text \<open>\<^verbatim>\<open>Library = namedtuple('Library', 'reads_fwd reads_bwd reads_unpaired')\<close>;
  \<open>None\<close> is Python's \<^verbatim>\<open>None\<close>.\<close>

record library =
  reads_fwd :: string
  reads_bwd :: string
  reads_unpaired :: "string option"

text \<open>A parsed sequence record (\<^verbatim>\<open>Bio.SeqRecord\<close>): its header and its sequence.\<close>

record seq_record =
  header :: string
  seq :: string

text \<open>
  What one run of the external assembler does, as far as \<^verbatim>\<open>assemble\<close> can see:
  \<^verbatim>\<open>subprocess.check_call\<close> raises, or it returns and the contracted transcripts file
  is absent (\<open>None\<close>) or holds some bytes. The other files the assembler leaves in its
  output directory are never read by \<^verbatim>\<open>assemble\<close> and are left out; none of them has
  one of the names \<^verbatim>\<open>assemble\<close> itself writes there.
\<close>

datatype tool_result = Raises | Returns "string option"

text \<open>The calls of \<^verbatim>\<open>log.warning\<close>: line 91; line 125, whose message is made from the
  k-mer size, the library and the exception; line 134, with its message.\<close>

datatype warning =
    NoLibraries
  | ExecuteFailed nat "library option"
  | Message string

text \<open>The exceptions: a failed \<^verbatim>\<open>assert\<close> with its message (line 79; line 104 has
  none), whatever \<^verbatim>\<open>self.execute\<close> raises, the \<^verbatim>\<open>RuntimeError\<close> of line 137 with
  its message, and those of Python itself for a field of \<^verbatim>\<open>None\<close>, an unbound name and
  a missing file.\<close>

datatype error =
    AssertionError string
  | ExecuteError
  | RuntimeError string
  | AttributeError
  | NameError
  | FileNotFoundError path

text \<open>
  The external collaborators, taken as parameters: the assembler (a function of the
  argument list; the \<^verbatim>\<open>-o\<close> directory makes every invocation's list distinct), and
  Biopython's FASTA reader and writer (\<^verbatim>\<open>Bio.SeqIO.parse\<close>, \<^verbatim>\<open>Bio.SeqIO.write\<close>).
\<close>

record env =
  tool :: "arg list \<Rightarrow> tool_result"
  seqio_parse :: "string \<Rightarrow> seq_record list"
  seqio_write :: "seq_record list \<Rightarrow> string"

record world =
  fs :: "path \<rightharpoonup> string"
  tmp_dirs :: nat
  calls :: "arg list list"
  warnings :: "warning list"

text \<open>
  The keyword arguments of \<^verbatim>\<open>assemble\<close>. \<open>kmer_sizes\<close> is a list of non-negative
  integers (0 means that SPAdes chooses); \<open>threads\<close> is the count after
  \<^verbatim>\<open>util.misc.sanitize_thread_count\<close>; \<open>spades_opts\<close> is the token list
  \<^verbatim>\<open>shlex.split(spades_opts)\<close>, empty for the empty string.
\<close>

record request =
  contigs_out :: string
  contigs_trusted :: "string option"
  contigs_untrusted :: "string option"
  kmer_sizes :: "nat list"
  mode :: string
  always_succeed :: bool
  max_kmer_sizes :: int
  filter_contigs :: bool
  min_contig_len :: int
  mem_limit_gb :: int
  threads :: int
  spades_opts :: "string list"

text \<open>The local variables of \<^verbatim>\<open>assemble\<close> that live across loop iterations;
  \<open>transcripts_fname = None\<close> is the unbound name.\<close>

record locals =
  contigs_cumul_count :: nat
  kmer_sizes_succeeded :: int
  this_kmer_size_succeeded :: bool
  transcripts_fname :: "path option"

subsection \<open>Python's \<^verbatim>\<open>str\<close> on integers\<close>

definition digit :: "nat \<Rightarrow> char" where
  "digit n = char_of (48 + n)"

fun str_nat :: "nat \<Rightarrow> string" where
  "str_nat n = (if n < 10 then [digit n] else str_nat (n div 10) @ [digit (n mod 10)])"

declare str_nat.simps [simp del]

definition str_int :: "int \<Rightarrow> string" where
  "str_int i = (if i < 0 then CHR ''-'' # str_nat (nat (- i)) else str_nat (nat i))"

subsection \<open>Files\<close>

definition isfile :: "world \<Rightarrow> path \<Rightarrow> bool" where
  "isfile w f = (fs w f \<noteq> None)"

definition getsize :: "world \<Rightarrow> path \<Rightarrow> nat" where
  "getsize w f = (case fs w f of None \<Rightarrow> 0 | Some c \<Rightarrow> length c)"

text \<open>Truth value of a path as Python sees it: only the empty string is false.\<close>

fun truthy :: "path \<Rightarrow> bool" where
  "truthy (Path s) = (s \<noteq> [])"
| "truthy (InScratch d n) = True"

text \<open>\<^verbatim>\<open>is_nonempty_file(f)\<close>, lines 86-87:
  \<^verbatim>\<open>f and os.path.isfile(f) and os.path.getsize(f) > 0\<close>.\<close>

definition is_nonempty_file :: "world \<Rightarrow> path \<Rightarrow> bool" where
  "is_nonempty_file w f = (truthy f \<and> isfile w f \<and> 0 < getsize w f)"

text \<open>The same test on a field that may be \<^verbatim>\<open>None\<close>.\<close>

definition is_nonempty_opt :: "world \<Rightarrow> string option \<Rightarrow> bool" where
  "is_nonempty_opt w f = (case f of None \<Rightarrow> False | Some s \<Rightarrow> is_nonempty_file w (Path s))"

text \<open>Modelled from the spec: \<^verbatim>\<open>util.file.make_empty\<close> is not among the sources.
  The spec has it leave the named file existing and empty ("synthesize an empty
  transcripts file", "\<^verbatim>\<open>contigsOut\<close> exists and is empty").\<close>

definition make_empty :: "path \<Rightarrow> world \<Rightarrow> world" where
  "make_empty f w = w\<lparr>fs := (fs w)(f \<mapsto> [])\<rparr>"

text \<open>Reading the listed files in order; the first missing one is the error.\<close>

fun read_all :: "world \<Rightarrow> path list \<Rightarrow> error + string" where
  "read_all w [] = Inr []"
| "read_all w (f # fs') =
     (case fs w f of
        None \<Rightarrow> Inl (FileNotFoundError f)
      | Some c \<Rightarrow> (case read_all w fs' of Inl e \<Rightarrow> Inl e | Inr cs \<Rightarrow> Inr (c @ cs)))"

text \<open>Modelled from the spec: \<^verbatim>\<open>util.file.concat\<close> is not among the sources.
  The spec has it "concatenate the current \<^verbatim>\<open>contigsOut\<close> plus this attempt's
  transcripts into a new cumulative scratch file"; with \<^verbatim>\<open>append=True\<close> the bytes
  go after whatever the output file already holds.\<close>

definition concat_files :: "path list \<Rightarrow> path \<Rightarrow> bool \<Rightarrow> world \<Rightarrow> error option \<times> world" where
  "concat_files inputFilePaths outputFilePath appending w =
     (case read_all w inputFilePaths of
        Inl e \<Rightarrow> (Some e, w)
      | Inr cs \<Rightarrow>
          (let old = (if appending then (case fs w outputFilePath of None \<Rightarrow> [] | Some c \<Rightarrow> c)
                      else [])
           in (None, w\<lparr>fs := (fs w)(outputFilePath \<mapsto> old @ cs)\<rparr>)))"

text \<open>\<^verbatim>\<open>shutil.copyfile(src, dst)\<close>.\<close>

definition copyfile :: "path \<Rightarrow> path \<Rightarrow> world \<Rightarrow> error option \<times> world" where
  "copyfile src dst w =
     (case fs w src of
        None \<Rightarrow> (Some (FileNotFoundError src), w)
      | Some c \<Rightarrow> (None, w\<lparr>fs := (fs w)(dst \<mapsto> c)\<rparr>))"

text \<open>Modelled from the spec: \<^verbatim>\<open>util.file.tmp_dir\<close> is not among the sources.
  The spec has each attempt run "in a freshly created, privately-scoped scratch
  directory that is guaranteed removed when the attempt ends, success or failure".
  Entering makes directory number \<open>tmp_dirs w\<close>, with nothing in it; leaving removes
  every file in it.\<close>

definition remove_dir :: "nat \<Rightarrow> (path \<rightharpoonup> string) \<Rightarrow> (path \<rightharpoonup> string)" where
  "remove_dir d m = (\<lambda>p. case p of Path s \<Rightarrow> m p
                          | InScratch d' n \<Rightarrow> if d' = d then None else m p)"

definition tmp_dir_enter :: "world \<Rightarrow> nat \<times> world" where
  "tmp_dir_enter w =
     (tmp_dirs w, w\<lparr>fs := remove_dir (tmp_dirs w) (fs w), tmp_dirs := Suc (tmp_dirs w)\<rparr>)"

definition tmp_dir_exit :: "nat \<Rightarrow> world \<Rightarrow> world" where
  "tmp_dir_exit d w = w\<lparr>fs := remove_dir d (fs w)\<rparr>"

definition warn :: "warning \<Rightarrow> world \<Rightarrow> world" where
  "warn m w = w\<lparr>warnings := warnings w @ [m]\<rparr>"

subsection \<open>One attempt\<close>

text \<open>Lines 105-108: the arguments for the library with index \<open>lib_num\<close>.\<close>

definition pe_lib_args :: "world \<Rightarrow> nat \<Rightarrow> library \<Rightarrow> arg list" where
  "pe_lib_args w lib_num lib =
     (let lib_pfx = ''--pe'' @ str_nat (lib_num + 1)
      in [Arg (lib_pfx @ ''-1''), Arg (reads_fwd lib), Arg (lib_pfx @ ''-2''), Arg (reads_bwd lib)]
         @ (if is_nonempty_opt w (reads_unpaired lib)
            then [Arg (lib_pfx @ ''-s''), Arg (the (reads_unpaired lib))] else []))"

text \<open>Lines 103-108: the loop over the enumerated libraries, with the bound on the
  library index.\<close>

fun pe_args :: "world \<Rightarrow> nat \<Rightarrow> library list \<Rightarrow> error + arg list" where
  "pe_args w lib_num [] = Inr []"
| "pe_args w lib_num (lib # rest) =
     (if \<not> lib_num < 9 then Inl (AssertionError [])
      else (case pe_args w (lib_num + 1) rest of
              Inl e \<Rightarrow> Inl e
            | Inr others \<Rightarrow> Inr (pe_lib_args w lib_num lib @ others)))"

text \<open>The libraries the inner loop of line 103 runs over:
  \<^verbatim>\<open>libraries if mode=='rna' else [lib]\<close>. Reading a field of \<^verbatim>\<open>None\<close> raises.\<close>

definition attempt_libs :: "request \<Rightarrow> library list \<Rightarrow> library option \<Rightarrow> error + library list" where
  "attempt_libs rq libraries lib =
     (if mode rq = ''rna'' then Inr libraries
      else (case lib of None \<Rightarrow> Inl AttributeError | Some l \<Rightarrow> Inr [l]))"

definition opt_arg :: "string \<Rightarrow> string option \<Rightarrow> arg list" where
  "opt_arg flag v = (case v of None \<Rightarrow> [] | Some s \<Rightarrow> if s = [] then [] else [Arg flag, Arg s])"

text \<open>Lines 110-114: the arguments after the libraries.\<close>

definition common_args :: "request \<Rightarrow> nat \<Rightarrow> nat \<Rightarrow> arg list" where
  "common_args rq kmer_size spades_dir =
     opt_arg ''--trusted-contigs'' (contigs_trusted rq)
     @ opt_arg ''--untrusted-contigs'' (contigs_untrusted rq)
     @ (if kmer_size \<noteq> 0 then [Arg ''-k'', Arg (str_nat kmer_size)] else [])
     @ map Arg (spades_opts rq)
     @ [Arg (''-m'' @ str_int (mem_limit_gb rq)), Arg ''-t'', Arg (str_int (threads rq)),
        Arg ''-o'', ArgDir spades_dir]"

text \<open>Lines 102-114.\<close>

definition build_args ::
  "request \<Rightarrow> world \<Rightarrow> nat \<Rightarrow> library list \<Rightarrow> nat \<Rightarrow> library option \<Rightarrow> error + arg list" where
  "build_args rq w spades_dir libraries kmer_size lib =
     (case attempt_libs rq libraries lib of
        Inl e \<Rightarrow> Inl e
      | Inr ls \<Rightarrow>
          (case pe_args w 0 ls of
             Inl e \<Rightarrow> Inl e
           | Inr pe \<Rightarrow>
               Inr (Arg (if mode rq = ''rna'' then ''--rna'' else ''--meta'')
                    # pe @ common_args rq kmer_size spades_dir)))"

text \<open>The value of the name \<^verbatim>\<open>lib\<close> after the inner loop, which rebinds it.\<close>

definition lib_after :: "request \<Rightarrow> library list \<Rightarrow> library option \<Rightarrow> library option" where
  "lib_after rq libraries lib =
     (if mode rq = ''rna'' \<and> libraries \<noteq> [] then Some (last libraries) else lib)"

text \<open>Lines 116-119: the file the assembler is contracted to write.\<close>

definition transcripts_name :: "request \<Rightarrow> string" where
  "transcripts_name rq =
     (if mode rq = ''meta'' then ''contigs.fasta''
      else (if filter_contigs rq then ''hard_filtered_'' else []) @ ''transcripts.fasta'')"

text \<open>\<^verbatim>\<open>self.execute(args)\<close>, lines 40-43: the invocation is recorded, the assembler's
  effect on the contracted file takes place, and the result says whether
  \<^verbatim>\<open>check_call\<close> raised.\<close>

definition execute :: "env \<Rightarrow> arg list \<Rightarrow> path \<Rightarrow> world \<Rightarrow> bool \<times> world" where
  "execute env args out_file w =
     (let w1 = w\<lparr>calls := calls w @ [args]\<rparr>
      in case tool env args of
           Raises \<Rightarrow> (True, w1)
         | Returns None \<Rightarrow> (False, w1)
         | Returns (Some c) \<Rightarrow> (False, w1\<lparr>fs := (fs w1)(out_file \<mapsto> c)\<rparr>))"

definition missing_msg :: "nat \<Rightarrow> string" where
  "missing_msg kmer_size = ''SPAdes failed to make transcripts.fasta for k='' @ str_nat kmer_size"

text \<open>Lines 121-137: the invocation, the handler of its exception, and the check
  that the transcripts file is there.\<close>

definition invoke ::
  "env \<Rightarrow> request \<Rightarrow> nat \<Rightarrow> library option \<Rightarrow> arg list \<Rightarrow> path \<Rightarrow> world \<Rightarrow> error option \<times> world" where
  "invoke env rq kmer_size lib args tf w =
     (case execute env args tf w of
        (raised, w1) \<Rightarrow>
          if raised \<and> \<not> always_succeed rq then (Some ExecuteError, w1)
          else
            (let w2 = (if raised then make_empty tf (warn (ExecuteFailed kmer_size lib) w1)
                       else w1)
             in if \<not> isfile w2 tf then
                  (if always_succeed rq
                   then (None, make_empty tf (warn (Message (missing_msg kmer_size)) w2))
                   else (Some (RuntimeError (missing_msg kmer_size)), w2))
                else (None, w2)))"

definition over_name :: "int \<Rightarrow> nat \<Rightarrow> string" where
  "over_name len n = ''transcripts_over_'' @ str_int len @ ''bp.'' @ str_nat n @ ''.fasta''"

definition cumul_name :: "nat \<Rightarrow> string" where
  "cumul_name n = ''contigs_cumul.'' @ str_nat n @ ''.fasta''"

text \<open>Lines 139-145: the length filter. The result is the new value of
  \<^verbatim>\<open>transcripts_fname\<close>.\<close>

definition sans_short :: "env \<Rightarrow> request \<Rightarrow> string \<Rightarrow> seq_record list" where
  "sans_short env rq c = filter (\<lambda>r. min_contig_len rq \<le> int (length (seq r))) (seqio_parse env c)"

definition drop_short ::
  "env \<Rightarrow> request \<Rightarrow> nat \<Rightarrow> nat \<Rightarrow> path \<Rightarrow> world \<Rightarrow> (error + path) \<times> world" where
  "drop_short env rq spades_dir count tf w =
     (if min_contig_len rq \<noteq> 0 then
        (case fs w tf of
           None \<Rightarrow> (Inl (FileNotFoundError tf), w)
         | Some c \<Rightarrow>
             (let tf' = InScratch spades_dir (over_name (min_contig_len rq) count)
              in (Inr tf', w\<lparr>fs := (fs w)(tf' \<mapsto> seqio_write env (sans_short env rq c))\<rparr>)))
      else (Inr tf, w))"

text \<open>Lines 147-151: the cumulative file, and the copy back over \<^verbatim>\<open>contigs_out\<close>.\<close>

definition accumulate :: "request \<Rightarrow> nat \<Rightarrow> nat \<Rightarrow> path \<Rightarrow> world \<Rightarrow> error option \<times> world" where
  "accumulate rq spades_dir count tf w =
     (let contigs_cumul = InScratch spades_dir (cumul_name count)
      in case concat_files [Path (contigs_out rq), tf] contigs_cumul True w of
           (Some e, w1) \<Rightarrow> (Some e, w1)
         | (None, w1) \<Rightarrow> copyfile contigs_cumul (Path (contigs_out rq)) w1)"

text \<open>Lines 101-153: the body of the \<^verbatim>\<open>with\<close> block, in scratch directory
  \<open>spades_dir\<close>.\<close>

definition attempt_body ::
  "env \<Rightarrow> request \<Rightarrow> library list \<Rightarrow> nat \<Rightarrow> library option \<Rightarrow> nat \<Rightarrow> locals \<times> world
     \<Rightarrow> (error + locals) \<times> world" where
  "attempt_body env rq libraries kmer_size lib spades_dir s =
     (case s of (loc, w) \<Rightarrow>
        (case build_args rq w spades_dir libraries kmer_size lib of
           Inl e \<Rightarrow> (Inl e, w)
         | Inr args \<Rightarrow>
             (let tf = InScratch spades_dir (transcripts_name rq);
                  loc1 = loc\<lparr>transcripts_fname := Some tf\<rparr>
              in case invoke env rq kmer_size (lib_after rq libraries lib) args tf w of
                   (Some e, w1) \<Rightarrow> (Inl e, w1)
                 | (None, w1) \<Rightarrow>
                     (case drop_short env rq spades_dir (contigs_cumul_count loc1) tf w1 of
                        (Inl e, w2) \<Rightarrow> (Inl e, w2)
                      | (Inr tf', w2) \<Rightarrow>
                          (let loc2 = loc1\<lparr>transcripts_fname := Some tf'\<rparr>;
                               count = contigs_cumul_count loc2;
                               loc3 = loc2\<lparr>contigs_cumul_count := count + 1\<rparr>
                           in case accumulate rq spades_dir count tf' w2 of
                                (Some e, w3) \<Rightarrow> (Inl e, w3)
                              | (None, w3) \<Rightarrow>
                                  (Inr (loc3\<lparr>this_kmer_size_succeeded :=
                                          this_kmer_size_succeeded loc3
                                          \<or> is_nonempty_file w3 tf'\<rparr>), w3))))))"

text \<open>Line 100: the \<^verbatim>\<open>with\<close> block. The directory is removed on every way out.\<close>

definition attempt ::
  "env \<Rightarrow> request \<Rightarrow> library list \<Rightarrow> nat \<Rightarrow> library option \<Rightarrow> locals \<times> world
     \<Rightarrow> (error + locals) \<times> world" where
  "attempt env rq libraries kmer_size lib s =
     (case s of (loc, w) \<Rightarrow>
        (case tmp_dir_enter w of
           (spades_dir, w0) \<Rightarrow>
             (case attempt_body env rq libraries kmer_size lib spades_dir (loc, w0) of
                (r, w1) \<Rightarrow> (r, tmp_dir_exit spades_dir w1))))"

subsection \<open>The loops\<close>

text \<open>Line 99: \<^verbatim>\<open>for lib in (libraries if mode=='meta' else (None,))\<close>.\<close>

definition outer_libs :: "request \<Rightarrow> library list \<Rightarrow> library option list" where
  "outer_libs rq libraries = (if mode rq = ''meta'' then map Some libraries else [None])"

fun lib_loop ::
  "env \<Rightarrow> request \<Rightarrow> library list \<Rightarrow> nat \<Rightarrow> library option list \<Rightarrow> locals \<times> world
     \<Rightarrow> (error + locals) \<times> world" where
  "lib_loop env rq libraries kmer_size [] s = (Inr (fst s), snd s)"
| "lib_loop env rq libraries kmer_size (lib # rest) s =
     (case attempt env rq libraries kmer_size lib s of
        (Inl e, w) \<Rightarrow> (Inl e, w)
      | (Inr loc, w) \<Rightarrow> lib_loop env rq libraries kmer_size rest (loc, w))"

text \<open>Lines 157-160: the test after the library loop. The result says whether the
  loop over the k-mer sizes goes on.\<close>

definition after_libs :: "request \<Rightarrow> locals \<times> world \<Rightarrow> (error + bool \<times> locals)" where
  "after_libs rq s =
     (case s of (loc, w) \<Rightarrow>
        (case transcripts_fname loc of
           None \<Rightarrow> Inl NameError
         | Some tf \<Rightarrow>
             if is_nonempty_file w tf then
               (let loc1 = loc\<lparr>kmer_sizes_succeeded := kmer_sizes_succeeded loc + 1\<rparr>
                in if max_kmer_sizes rq \<le> kmer_sizes_succeeded loc1 then Inr (False, loc1)
                   else Inr (True, loc1))
             else Inr (True, loc)))"

text \<open>Lines 96-160: \<^verbatim>\<open>for kmer_size in util.misc.make_seq(kmer_sizes)\<close>.\<close>

fun kmer_loop ::
  "env \<Rightarrow> request \<Rightarrow> library list \<Rightarrow> nat list \<Rightarrow> locals \<times> world \<Rightarrow> (error + locals) \<times> world" where
  "kmer_loop env rq libraries [] s = (Inr (fst s), snd s)"
| "kmer_loop env rq libraries (kmer_size # rest) s =
     (case lib_loop env rq libraries kmer_size (outer_libs rq libraries)
             (fst s\<lparr>this_kmer_size_succeeded := False\<rparr>, snd s) of
        (Inl e, w) \<Rightarrow> (Inl e, w)
      | (Inr loc, w) \<Rightarrow>
          (case after_libs rq (loc, w) of
             Inl e \<Rightarrow> (Inl e, w)
           | Inr (go_on, loc1) \<Rightarrow>
               if go_on then kmer_loop env rq libraries rest (loc1, w) else (Inr loc1, w)))"

subsection \<open>\<^verbatim>\<open>assemble\<close>\<close>

definition valid_mode :: "string \<Rightarrow> bool" where
  "valid_mode m = (m = ''rna'' \<or> m = ''meta'')"

text \<open>Line 89: the libraries whose forward reads are a non-empty file.\<close>

definition qualifying :: "world \<Rightarrow> library list \<Rightarrow> library list" where
  "qualifying w libraries = filter (\<lambda>lib. is_nonempty_file w (Path (reads_fwd lib))) libraries"

text \<open>Modelled from the spec: \<^verbatim>\<open>util.misc.make_seq\<close> is not among the sources.
  The spec has \<^verbatim>\<open>kmerSizes\<close> a "list of k-mer sizes" over which "the outer loop
  iterates"; a list is iterated over as it is.\<close>

definition make_seq :: "nat list \<Rightarrow> nat list" where
  [simp]: "make_seq obj = obj"

definition init_locals :: locals where
  "init_locals = \<lparr>contigs_cumul_count = 0, kmer_sizes_succeeded = 0,
                  this_kmer_size_succeeded = False, transcripts_fname = None\<rparr>"

text \<open>Lines 79-160. The result is the exception raised, if any, and the world left
  behind.\<close>

definition assemble :: "env \<Rightarrow> request \<Rightarrow> library list \<Rightarrow> world \<Rightarrow> error option \<times> world" where
  "assemble env rq libraries w =
     (if \<not> valid_mode (mode rq) then (Some (AssertionError (''Invalid SPAdes mode: '' @ mode rq)), w)
      else
        (let w1 = make_empty (Path (contigs_out rq)) w;
             libs = qualifying w1 libraries
         in if libs = [] then (None, warn NoLibraries w1)
            else (case kmer_loop env rq libs (make_seq (kmer_sizes rq)) (init_locals, w1) of
                    (Inl e, w2) \<Rightarrow> (Some e, w2)
                  | (Inr loc, w2) \<Rightarrow> (None, w2))))"

subsection \<open>Summaries used in the statements\<close>

text \<open>What lines 121-137 leave in the transcripts file of an invocation with the given
  arguments: the assembler's file, or the empty file made in its place when
  \<open>always_succeed\<close> is set; \<open>None\<close> when the attempt raises.\<close>

definition raw_transcripts :: "env \<Rightarrow> request \<Rightarrow> arg list \<Rightarrow> string option" where
  "raw_transcripts env rq args =
     (case tool env args of
        Returns (Some c) \<Rightarrow> Some c
      | _ \<Rightarrow> if always_succeed rq then Some [] else None)"

text \<open>The bytes an attempt with the given arguments adds to \<^verbatim>\<open>contigs_out\<close>: the
  transcripts, after the length filter when there is one; nothing when it raises.\<close>

definition merged :: "env \<Rightarrow> request \<Rightarrow> arg list \<Rightarrow> string" where
  "merged env rq args =
     (case raw_transcripts env rq args of
        None \<Rightarrow> []
      | Some c \<Rightarrow> if min_contig_len rq \<noteq> 0 then seqio_write env (sans_short env rq c) else c)"

text \<open>The exception of an attempt that raises at lines 121-137.\<close>

definition abort_error :: "env \<Rightarrow> nat \<Rightarrow> arg list \<Rightarrow> error" where
  "abort_error env kmer_size args =
     (if tool env args = Raises then ExecuteError else RuntimeError (missing_msg kmer_size))"

text \<open>The warnings of lines 125 and 134.\<close>

definition invoke_warnings :: "env \<Rightarrow> nat \<Rightarrow> library option \<Rightarrow> arg list \<Rightarrow> warning list" where
  "invoke_warnings env kmer_size lib args =
     (case tool env args of
        Raises \<Rightarrow> [ExecuteFailed kmer_size lib]
      | Returns None \<Rightarrow> [Message (missing_msg kmer_size)]
      | Returns (Some c) \<Rightarrow> [])"

text \<open>The name \<^verbatim>\<open>transcripts_fname\<close> holds at line 150.\<close>

definition final_name :: "request \<Rightarrow> nat \<Rightarrow> string" where
  "final_name rq count =
     (if min_contig_len rq \<noteq> 0 then over_name (min_contig_len rq) count else transcripts_name rq)"

text \<open>The world after a scratch directory was made and removed again.\<close>

definition next_dir :: "world \<Rightarrow> world" where
  "next_dir w = w\<lparr>fs := remove_dir (tmp_dirs w) (fs w), tmp_dirs := Suc (tmp_dirs w)\<rparr>"

text \<open>One attempt that reached the assembler, as the statements below name it: the
  k-mer size, the library named in its warning, and the arguments of its invocation.\<close>

datatype attempt_rec = Attempt (kmer_of: nat) (lib_of: "library option") (args_of: "arg list")

text \<open>The warnings an attempt leaves in the log: none when it raises.\<close>

definition logged :: "env \<Rightarrow> request \<Rightarrow> attempt_rec \<Rightarrow> warning list" where
  "logged env rq a =
     (if raw_transcripts env rq (args_of a) = None then []
      else invoke_warnings env (kmer_of a) (lib_of a) (args_of a))"

text \<open>Among the attempts of a run only the last can be one that raised at lines 121-137,
  and then the run ends with that exception.\<close>

definition trace_ok :: "env \<Rightarrow> request \<Rightarrow> (error + locals) \<Rightarrow> attempt_rec list \<Rightarrow> bool" where
  "trace_ok env rq r new \<longleftrightarrow>
     (\<forall>a\<in>set new. raw_transcripts env rq (args_of a) \<noteq> None)
     \<or> (\<exists>pre a. new = pre @ [a]
            \<and> (\<forall>b\<in>set pre. raw_transcripts env rq (args_of b) \<noteq> None)
            \<and> raw_transcripts env rq (args_of a) = None
            \<and> r = Inl (abort_error env (kmer_of a) (args_of a)))"

text \<open>\<^verbatim>\<open>transcripts_fname\<close> names a file of a scratch directory, and the file is not there.\<close>

definition stale :: "locals \<Rightarrow> world \<Rightarrow> bool" where
  "stale loc w \<longleftrightarrow> (\<exists>d n. transcripts_fname loc = Some (InScratch d n) \<and> fs w (InScratch d n) = None)"

text \<open>What a stretch of a run did: the invocations it made, the warnings it logged, and
  \<^verbatim>\<open>contigs_out\<close> holding what it held before followed by what each attempt merged,
  in order.\<close>

definition summary ::
  "env \<Rightarrow> request \<Rightarrow> string \<Rightarrow> world \<Rightarrow> (error + locals) \<Rightarrow> world \<Rightarrow> attempt_rec list \<Rightarrow> bool" where
  "summary env rq c0 w r w' new \<longleftrightarrow>
     calls w' = calls w @ map args_of new
     \<and> warnings w' = warnings w @ concat (map (logged env rq) new)
     \<and> fs w' (Path (contigs_out rq)) = Some (c0 @ concat (map (\<lambda>a. merged env rq (args_of a)) new))
     \<and> trace_ok env rq r new"

subsection \<open>Concrete inputs\<close>

text \<open>A small file system, two libraries, a request and three assemblers, for the
  concrete instances below. The reader and the writer are those of FASTA files with
  one header line and one sequence line for each record.\<close>

fun ex_lines :: "string \<Rightarrow> string \<Rightarrow> string list" where
  "ex_lines cur [] = (if cur = [] then [] else [cur])"
| "ex_lines cur (c # cs) =
     (if c = CHR 0x0A then cur # ex_lines [] cs else ex_lines (cur @ [c]) cs)"

fun ex_records :: "string list \<Rightarrow> seq_record list" where
  "ex_records (h # s # rest) = \<lparr>header = h, seq = s\<rparr> # ex_records rest"
| "ex_records rest = []"

definition ex_parse :: "string \<Rightarrow> seq_record list" where
  "ex_parse c = ex_records (ex_lines [] c)"

definition ex_write :: "seq_record list \<Rightarrow> string" where
  "ex_write rs = concat (map (\<lambda>r. header r @ [CHR 0x0A] @ seq r @ [CHR 0x0A]) rs)"

definition ex_env :: "tool_result \<Rightarrow> env" where
  "ex_env res = \<lparr>tool = (\<lambda>args. res), seqio_parse = ex_parse, seqio_write = ex_write\<rparr>"

definition ex_contigs :: string where
  "ex_contigs = ''>c1'' @ [CHR 0x0A] @ ''ACGTACGT'' @ [CHR 0x0A] @ ''>c2'' @ [CHR 0x0A] @ ''AC'' @ [CHR 0x0A]"

definition lib_a :: library where
  "lib_a = \<lparr>reads_fwd = ''a_1.fq'', reads_bwd = ''a_2.fq'', reads_unpaired = None\<rparr>"

definition lib_b :: library where
  "lib_b = \<lparr>reads_fwd = ''b_1.fq'', reads_bwd = ''b_2.fq'', reads_unpaired = None\<rparr>"

definition lib_none :: library where
  "lib_none = \<lparr>reads_fwd = ''none_1.fq'', reads_bwd = ''none_2.fq'', reads_unpaired = None\<rparr>"

definition ex_world :: world where
  "ex_world =
     \<lparr>fs = [Path ''a_1.fq'' \<mapsto> ''@r1'', Path ''a_2.fq'' \<mapsto> ''@r2'',
             Path ''b_1.fq'' \<mapsto> ''@r3'', Path ''b_2.fq'' \<mapsto> ''@r4'',
             Path ''out.fa'' \<mapsto> ''>old''],
       tmp_dirs = 0, calls = [], warnings = []\<rparr>"

definition ex_request :: request where
  "ex_request =
     \<lparr>contigs_out = ''out.fa'', contigs_trusted = None, contigs_untrusted = None,
       kmer_sizes = [21, 33, 55], mode = ''rna'', always_succeed = False, max_kmer_sizes = 2,
       filter_contigs = False, min_contig_len = 0, mem_limit_gb = 8, threads = 4,
       spades_opts = []\<rparr>"

definition ex_meta :: request where
  "ex_meta = ex_request\<lparr>mode := ''meta'', kmer_sizes := [21]\<rparr>"

definition ex_rna :: request where
  "ex_rna = ex_request\<lparr>kmer_sizes := [21]\<rparr>"

definition ex_no_kmers :: request where
  "ex_no_kmers = ex_request\<lparr>kmer_sizes := []\<rparr>"

definition ex_tolerant :: request where
  "ex_tolerant = ex_request\<lparr>always_succeed := True, min_contig_len := 5\<rparr>"

definition ex_filtering :: request where
  "ex_filtering = ex_request\<lparr>min_contig_len := 5\<rparr>"

definition ex_ten_libs :: "library list" where
  "ex_ten_libs = [lib_a, lib_b, lib_a, lib_b, lib_a, lib_b, lib_a, lib_b, lib_a, lib_b]"

section \<open>The steps of one attempt\<close>

lemma invoke_unfold:
  assumes "fs w tf = None"
  shows "invoke env rq k lib args tf w =
    (case raw_transcripts env rq args of
       None \<Rightarrow> (Some (abort_error env k args), w\<lparr>calls := calls w @ [args]\<rparr>)
     | Some c \<Rightarrow> (None, w\<lparr>fs := (fs w)(tf \<mapsto> c), calls := calls w @ [args],
                          warnings := warnings w @ invoke_warnings env k lib args\<rparr>))"
  using assms
  by (auto simp: invoke_def execute_def raw_transcripts_def abort_error_def invoke_warnings_def
      make_empty_def warn_def isfile_def Let_def split: tool_result.splits option.splits)

lemma cumul_neq_transcripts [simp]: "cumul_name n \<noteq> transcripts_name rq"
  by (simp add: cumul_name_def transcripts_name_def)

lemma cumul_neq_over [simp]: "cumul_name n \<noteq> over_name l m"
  by (simp add: cumul_name_def over_name_def)

lemma over_neq_transcripts [simp]: "over_name l m \<noteq> transcripts_name rq"
  by (simp add: over_name_def transcripts_name_def)

lemma cumul_neq_final [simp]: "cumul_name n \<noteq> final_name rq m"
  by (simp add: final_name_def)

lemmas scratch_names_distinct [simp] =
  cumul_neq_transcripts [THEN not_sym] cumul_neq_over [THEN not_sym]
  over_neq_transcripts [THEN not_sym] cumul_neq_final [THEN not_sym]

lemma remove_dir_scratch [simp]: "remove_dir d (m(InScratch d n := v)) = remove_dir d m"
  by (rule ext) (simp add: remove_dir_def split: path.splits)

lemma remove_dir_path [simp]: "remove_dir d (m(Path s := v)) = (remove_dir d m)(Path s := v)"
  by (rule ext) (simp add: remove_dir_def split: path.splits)

lemma remove_dir_idem [simp]: "remove_dir d (remove_dir d m) = remove_dir d m"
  by (rule ext) (simp add: remove_dir_def split: path.splits)

lemma remove_dir_at_path [simp]: "remove_dir d m (Path s) = m (Path s)"
  by (simp add: remove_dir_def)

lemma remove_dir_at_scratch [simp]: "remove_dir d m (InScratch d n) = None"
  by (simp add: remove_dir_def)

lemma attempt_body_unfold:
  assumes out: "fs w (Path (contigs_out rq)) = Some c0"
    and fresh: "\<And>n. fs w (InScratch d n) = None"
  shows "attempt_body env rq libs k lib d (loc, w) =
    (case build_args rq w d libs k lib of
       Inl e \<Rightarrow> (Inl e, w)
     | Inr args \<Rightarrow>
        (case raw_transcripts env rq args of
           None \<Rightarrow> (Inl (abort_error env k args), w\<lparr>calls := calls w @ [args]\<rparr>)
         | Some c \<Rightarrow>
            (Inr (loc\<lparr>contigs_cumul_count := Suc (contigs_cumul_count loc),
                      this_kmer_size_succeeded :=
                        this_kmer_size_succeeded loc \<or> merged env rq args \<noteq> [],
                      transcripts_fname :=
                        Some (InScratch d (final_name rq (contigs_cumul_count loc)))\<rparr>),
             w\<lparr>fs := (fs w)(InScratch d (transcripts_name rq) \<mapsto> c,
                      InScratch d (final_name rq (contigs_cumul_count loc)) \<mapsto> merged env rq args,
                      InScratch d (cumul_name (contigs_cumul_count loc)) \<mapsto> c0 @ merged env rq args,
                      Path (contigs_out rq) \<mapsto> c0 @ merged env rq args),
                calls := calls w @ [args],
                warnings := warnings w @ invoke_warnings env k (lib_after rq libs lib) args\<rparr>)))"
proof (cases "build_args rq w d libs k lib")
  case (Inl e)
  then show ?thesis by (simp add: attempt_body_def)
next
  case (Inr args)
  show ?thesis
  proof (cases "raw_transcripts env rq args")
    case None
    with Inr show ?thesis
      by (simp add: attempt_body_def invoke_unfold [OF fresh])
  next
    case (Some c)
    with Inr out show ?thesis
      by (simp add: attempt_body_def invoke_unfold [OF fresh] drop_short_def accumulate_def
          concat_files_def copyfile_def merged_def final_name_def fresh
          is_nonempty_file_def isfile_def getsize_def Let_def)
  qed
qed

lemma is_nonempty_opt_cong:
  assumes "\<And>s. fs w (Path s) = fs w' (Path s)"
  shows "is_nonempty_opt w f = is_nonempty_opt w' f"
  using assms
  by (simp add: is_nonempty_opt_def is_nonempty_file_def isfile_def getsize_def split: option.splits)

lemma pe_args_cong:
  assumes "\<And>s. fs w (Path s) = fs w' (Path s)"
  shows "pe_args w n ls = pe_args w' n ls"
proof -
  have one: "\<And>n l. pe_lib_args w n l = pe_lib_args w' n l"
    by (simp add: pe_lib_args_def is_nonempty_opt_cong [OF assms])
  show ?thesis
    by (induction ls arbitrary: n) (simp_all add: one split: sum.splits)
qed

lemma build_args_cong:
  assumes "\<And>s. fs w (Path s) = fs w' (Path s)"
  shows "build_args rq w d libs k lib = build_args rq w' d libs k lib"
  by (simp add: build_args_def pe_args_cong [OF assms] split: sum.splits)

lemma attempt_unfold:
  assumes out: "fs w (Path (contigs_out rq)) = Some c0"
  shows "attempt env rq libs k lib (loc, w) =
    (case build_args rq w (tmp_dirs w) libs k lib of
       Inl e \<Rightarrow> (Inl e, next_dir w)
     | Inr args \<Rightarrow>
        (case raw_transcripts env rq args of
           None \<Rightarrow> (Inl (abort_error env k args), (next_dir w)\<lparr>calls := calls w @ [args]\<rparr>)
         | Some c \<Rightarrow>
            (Inr (loc\<lparr>contigs_cumul_count := Suc (contigs_cumul_count loc),
                      this_kmer_size_succeeded :=
                        this_kmer_size_succeeded loc \<or> merged env rq args \<noteq> [],
                      transcripts_fname :=
                        Some (InScratch (tmp_dirs w) (final_name rq (contigs_cumul_count loc)))\<rparr>),
             (next_dir w)\<lparr>fs := (remove_dir (tmp_dirs w) (fs w))
                                  (Path (contigs_out rq) \<mapsto> c0 @ merged env rq args),
                calls := calls w @ [args],
                warnings := warnings w @ invoke_warnings env k (lib_after rq libs lib) args\<rparr>)))"
proof -
  let ?w0 = "next_dir w"
  have out0: "fs ?w0 (Path (contigs_out rq)) = Some c0"
    using out by (simp add: next_dir_def)
  have fresh: "\<And>n. fs ?w0 (InScratch (tmp_dirs w) n) = None"
    by (simp add: next_dir_def)
  have args: "build_args rq ?w0 (tmp_dirs w) libs k lib = build_args rq w (tmp_dirs w) libs k lib"
    by (rule build_args_cong) (simp add: next_dir_def)
  have enter: "tmp_dir_enter w = (tmp_dirs w, ?w0)"
    by (simp add: tmp_dir_enter_def next_dir_def)
  show ?thesis
    by (simp add: attempt_def enter attempt_body_unfold [OF out0 fresh] args tmp_dir_exit_def
        split: sum.splits option.splits)
      (simp add: next_dir_def)
qed

lemma attempt_eval:
  assumes "fs w (Path (contigs_out rq)) \<noteq> None"
  shows "attempt env rq libs k lib (loc, w) =
    (case build_args rq w (tmp_dirs w) libs k lib of
       Inl e \<Rightarrow> (Inl e, next_dir w)
     | Inr args \<Rightarrow>
        (case raw_transcripts env rq args of
           None \<Rightarrow> (Inl (abort_error env k args), (next_dir w)\<lparr>calls := calls w @ [args]\<rparr>)
         | Some c \<Rightarrow>
            (Inr (loc\<lparr>contigs_cumul_count := Suc (contigs_cumul_count loc),
                      this_kmer_size_succeeded :=
                        this_kmer_size_succeeded loc \<or> merged env rq args \<noteq> [],
                      transcripts_fname :=
                        Some (InScratch (tmp_dirs w) (final_name rq (contigs_cumul_count loc)))\<rparr>),
             (next_dir w)\<lparr>fs := (remove_dir (tmp_dirs w) (fs w))
                                  (Path (contigs_out rq) \<mapsto>
                                     the (fs w (Path (contigs_out rq))) @ merged env rq args),
                calls := calls w @ [args],
                warnings := warnings w @ invoke_warnings env k (lib_after rq libs lib) args\<rparr>)))"
proof -
  from assms obtain c0 where "fs w (Path (contigs_out rq)) = Some c0" by blast
  then show ?thesis by (simp add: attempt_unfold split: sum.splits option.splits)
qed

section \<open>The loops\<close>

lemma merged_aborted: "raw_transcripts env rq a = None \<Longrightarrow> merged env rq a = []"
  by (simp add: merged_def)

lemma attempt_summary:
  assumes "fs w (Path (contigs_out rq)) = Some c0"
    and "attempt env rq libs k lib (loc, w) = (r, w')"
  shows "\<exists>new. length new \<le> 1 \<and> summary env rq c0 w r w' new \<and> (\<forall>a\<in>set new. kmer_of a = k)"
proof (cases "build_args rq w (tmp_dirs w) libs k lib")
  case (Inl e)
  with assms have "summary env rq c0 w r w' []"
    by (auto simp: attempt_unfold summary_def trace_ok_def next_dir_def)
  then show ?thesis by force
next
  case (Inr args)
  let ?a = "Attempt k (lib_after rq libs lib) args"
  show ?thesis
  proof (cases "raw_transcripts env rq args")
    case None
    with Inr assms have "summary env rq c0 w r w' [?a]"
      by (auto simp: attempt_unfold summary_def trace_ok_def next_dir_def merged_aborted logged_def)
    then show ?thesis by force
  next
    case (Some c)
    with Inr assms have "summary env rq c0 w r w' [?a]"
      by (auto simp: attempt_unfold summary_def trace_ok_def next_dir_def logged_def)
    then show ?thesis by force
  qed
qed

lemma attempt_Inr_stale:
  assumes "fs w (Path (contigs_out rq)) = Some c0"
    and "attempt env rq libs k lib (loc, w) = (Inr loc', w')"
  shows "stale loc' w'"
  using assms
  by (auto simp: attempt_unfold stale_def next_dir_def split: sum.splits option.splits)

lemma trace_ok_Cons:
  assumes "raw_transcripts env rq (args_of a) \<noteq> None" and "trace_ok env rq r new"
  shows "trace_ok env rq r (a # new)"
  using assms unfolding trace_ok_def
  by (metis append_Cons set_ConsD)

lemma trace_ok_append:
  assumes "\<forall>a\<in>set pre. raw_transcripts env rq (args_of a) \<noteq> None" and "trace_ok env rq r new"
  shows "trace_ok env rq r (pre @ new)"
  using assms by (induction pre) (simp_all add: trace_ok_Cons)

lemma trace_ok_Inr:
  "trace_ok env rq (Inr loc) new \<Longrightarrow> \<forall>a\<in>set new. raw_transcripts env rq (args_of a) \<noteq> None"
  by (auto simp: trace_ok_def)

lemma summary_trans:
  assumes "summary env rq c0 w (Inr loc1) w1 new1"
    and "summary env rq (c0 @ concat (map (\<lambda>a. merged env rq (args_of a)) new1)) w1 r w' new2"
  shows "summary env rq c0 w r w' (new1 @ new2)"
  using assms trace_ok_append [OF trace_ok_Inr, of env rq loc1 new1 r new2]
  by (simp add: summary_def)

lemma summary_out:
  "summary env rq c0 w r w' new \<Longrightarrow>
   fs w' (Path (contigs_out rq)) = Some (c0 @ concat (map (\<lambda>a. merged env rq (args_of a)) new))"
  by (simp add: summary_def)

lemma summary_Inr_any:
  "summary env rq c0 w (Inr loc) w' new \<Longrightarrow> summary env rq c0 w r w' new"
  by (auto simp: summary_def trace_ok_def)

lemma summary_refl: "fs w (Path (contigs_out rq)) = Some c0 \<Longrightarrow> summary env rq c0 w r w []"
  by (simp add: summary_def trace_ok_def)

lemma lib_loop_summary:
  assumes "fs w (Path (contigs_out rq)) = Some c0"
    and "lib_loop env rq libs k ls (loc, w) = (r, w')"
  shows "\<exists>new. summary env rq c0 w r w' new \<and> (\<forall>a\<in>set new. kmer_of a = k)"
  using assms
proof (induction ls arbitrary: loc w c0)
  case Nil
  then have "summary env rq c0 w r w' []"
    by (auto simp: summary_refl)
  then show ?case by force
next
  case (Cons lib ls)
  obtain r1 w1 where a: "attempt env rq libs k lib (loc, w) = (r1, w1)"
    by (cases "attempt env rq libs k lib (loc, w)")
  from attempt_summary [OF Cons.prems(1) a]
  obtain new1 where s1: "summary env rq c0 w r1 w1 new1" and k1: "\<forall>a\<in>set new1. kmer_of a = k"
    by blast
  show ?case
  proof (cases r1)
    case (Inl e)
    with a Cons.prems(2) have "r = r1" "w' = w1" by simp_all
    with s1 k1 show ?thesis by blast
  next
    case (Inr loc1)
    with a Cons.prems(2) have rest: "lib_loop env rq libs k ls (loc1, w1) = (r, w')" by simp
    from Cons.IH [OF summary_out [OF s1] rest] obtain new2
      where s2: "summary env rq (c0 @ concat (map (\<lambda>a. merged env rq (args_of a)) new1)) w1 r w' new2"
        and k2: "\<forall>a\<in>set new2. kmer_of a = k"
      by blast
    from s1 s2 Inr have "summary env rq c0 w r w' (new1 @ new2)"
      by (auto intro: summary_trans)
    with k1 k2 show ?thesis by (intro exI [of _ "new1 @ new2"]) auto
  qed
qed

lemma kmer_loop_summary:
  assumes "fs w (Path (contigs_out rq)) = Some c0"
    and "kmer_loop env rq libs ks (loc, w) = (r, w')"
  shows "\<exists>new. summary env rq c0 w r w' new \<and> (\<forall>a\<in>set new. kmer_of a \<in> set ks)"
  using assms
proof (induction ks arbitrary: loc w c0)
  case Nil
  then have "summary env rq c0 w r w' []"
    by (auto simp: summary_refl)
  then show ?case by force
next
  case (Cons k ks)
  let ?loc0 = "loc\<lparr>this_kmer_size_succeeded := False\<rparr>"
  obtain r1 w1 where l: "lib_loop env rq libs k (outer_libs rq libs) (?loc0, w) = (r1, w1)"
    by (cases "lib_loop env rq libs k (outer_libs rq libs) (?loc0, w)")
  from lib_loop_summary [OF Cons.prems(1) l]
  obtain new1 where s1: "summary env rq c0 w r1 w1 new1" and k1: "\<forall>a\<in>set new1. kmer_of a = k"
    by blast
  from k1 have k1': "\<forall>a\<in>set new1. kmer_of a \<in> set (k # ks)" by simp
  show ?case
  proof (cases r1)
    case (Inl e)
    with l Cons.prems(2) have "r = r1" "w' = w1" by simp_all
    with s1 k1' show ?thesis by blast
  next
    case r1: (Inr loc1)
    show ?thesis
    proof (cases "after_libs rq (loc1, w1)")
      case (Inl e)
      with l r1 Cons.prems(2) have "w' = w1" by simp
      with s1 r1 k1' show ?thesis by (blast intro: summary_Inr_any)
    next
      case (Inr p)
      obtain go_on loc2 where p: "p = (go_on, loc2)" by (cases p)
      show ?thesis
      proof (cases go_on)
        case False
        with l r1 Inr p Cons.prems(2) have "w' = w1" by simp
        with s1 r1 k1' show ?thesis by (blast intro: summary_Inr_any)
      next
        case True
        with l r1 Inr p Cons.prems(2)
        have rest: "kmer_loop env rq libs ks (loc2, w1) = (r, w')" by simp
        from Cons.IH [OF summary_out [OF s1] rest] obtain new2
          where s2: "summary env rq (c0 @ concat (map (\<lambda>a. merged env rq (args_of a)) new1)) w1 r w' new2"
            and k2: "\<forall>a\<in>set new2. kmer_of a \<in> set ks"
          by blast
        from s1 s2 r1 have "summary env rq c0 w r w' (new1 @ new2)"
          by (auto intro: summary_trans)
        with k1 k2 show ?thesis by (intro exI [of _ "new1 @ new2"]) auto
      qed
    qed
  qed
qed

section \<open>The whole call\<close>

lemma make_empty_simps [simp]:
  "fs (make_empty f w) = (fs w)(f \<mapsto> [])"
  "calls (make_empty f w) = calls w"
  "warnings (make_empty f w) = warnings w"
  "tmp_dirs (make_empty f w) = tmp_dirs w"
  by (simp_all add: make_empty_def)

lemma assemble_run:
  assumes "valid_mode (mode rq)"
    and "qualifying (make_empty (Path (contigs_out rq)) w) libraries \<noteq> []"
    and "assemble env rq libraries w = (r, w')"
  shows "\<exists>rr new. kmer_loop env rq (qualifying (make_empty (Path (contigs_out rq)) w) libraries)
                     (kmer_sizes rq) (init_locals, make_empty (Path (contigs_out rq)) w) = (rr, w')
           \<and> r = (case rr of Inl e \<Rightarrow> Some e | Inr loc \<Rightarrow> None)
           \<and> summary env rq [] (make_empty (Path (contigs_out rq)) w) rr w' new
           \<and> (\<forall>a\<in>set new. kmer_of a \<in> set (kmer_sizes rq))"
proof -
  let ?w1 = "make_empty (Path (contigs_out rq)) w"
  let ?libs = "qualifying ?w1 libraries"
  obtain rr w2 where k: "kmer_loop env rq ?libs (kmer_sizes rq) (init_locals, ?w1) = (rr, w2)"
    by (cases "kmer_loop env rq ?libs (kmer_sizes rq) (init_locals, ?w1)")
  have out: "fs ?w1 (Path (contigs_out rq)) = Some []" by simp
  from kmer_loop_summary [OF out k] obtain new
    where "summary env rq [] ?w1 rr w2 new" and "\<forall>a\<in>set new. kmer_of a \<in> set (kmer_sizes rq)"
    by blast
  moreover from assms k have "w' = w2" and "r = (case rr of Inl e \<Rightarrow> Some e | Inr loc \<Rightarrow> None)"
    by (auto simp: assemble_def Let_def split: sum.splits)
  ultimately show ?thesis using k by blast
qed

lemma assemble_calls:
  assumes "assemble env rq libraries w = (r, w')"
  shows "\<exists>rr new. calls w' = calls w @ map args_of new
          \<and> fs w' (Path (contigs_out rq))
              = (if valid_mode (mode rq)
                 then Some (concat (map (\<lambda>a. merged env rq (args_of a)) new))
                 else fs w (Path (contigs_out rq)))
          \<and> trace_ok env rq rr new
          \<and> (\<forall>a\<in>set new. kmer_of a \<in> set (kmer_sizes rq))
          \<and> (new \<noteq> [] \<longrightarrow> r = (case rr of Inl e \<Rightarrow> Some e | Inr loc \<Rightarrow> None))"
proof (cases "valid_mode (mode rq) \<and> qualifying (make_empty (Path (contigs_out rq)) w) libraries \<noteq> []")
  case True
  from assemble_run [OF _ _ assms] True obtain rr new
    where "r = (case rr of Inl e \<Rightarrow> Some e | Inr loc \<Rightarrow> None)"
      and "summary env rq [] (make_empty (Path (contigs_out rq)) w) rr w' new"
      and "\<forall>a\<in>set new. kmer_of a \<in> set (kmer_sizes rq)"
    by blast
  with True show ?thesis
    by (intro exI [of _ rr] exI [of _ new]) (simp add: summary_def)
next
  case False
  with assms have "calls w' = calls w"
    and "fs w' (Path (contigs_out rq)) = (if valid_mode (mode rq) then Some [] else fs w (Path (contigs_out rq)))"
    by (auto simp: assemble_def Let_def warn_def split: if_splits)
  then show ?thesis
    by (intro exI [of _ "Inr init_locals"] exI [of _ "[]"]) (simp add: trace_ok_def)
qed

section \<open>Which runs raise, and how\<close>

lemma pe_args_fail:
  "ls \<noteq> [] \<Longrightarrow> 9 < n + length ls \<Longrightarrow> pe_args w n ls = Inl (AssertionError [])"
proof (induction ls arbitrary: n)
  case Nil
  then show ?case by simp
next
  case (Cons l ls)
  show ?case
  proof (cases "ls = []")
    case True
    with Cons.prems show ?thesis by simp
  next
    case False
    with Cons.prems Cons.IH [of "n + 1"] show ?thesis by simp
  qed
qed

lemma pe_args_ok:
  "n + length ls \<le> 9 \<Longrightarrow>
   pe_args w n ls = Inr (concat (map (\<lambda>(i, l). pe_lib_args w i l) (zip [n..<n + length ls] ls)))"
proof (induction ls arbitrary: n)
  case Nil
  then show ?case by simp
next
  case (Cons l ls)
  from Cons.prems have "n < 9" and "Suc n + length ls \<le> 9" by simp_all
  moreover have "[n..<n + length (l # ls)] = n # [Suc n..<n + length (l # ls)]"
    by (rule upt_conv_Cons) simp
  then have "[n..<n + length (l # ls)] = n # [Suc n..<Suc n + length ls]"
    by simp
  ultimately show ?case using Cons.IH [of "Suc n"] by simp
qed

lemma build_args_rna_fail:
  "mode rq = ''rna'' \<Longrightarrow> 9 < length libs \<Longrightarrow>
   build_args rq w d libs k lib = Inl (AssertionError [])"
proof -
  assume rna: "mode rq = ''rna''" and many: "9 < length libs"
  then have "libs \<noteq> []" by auto
  with many have "pe_args w 0 libs = Inl (AssertionError [])"
    by (simp add: pe_args_fail)
  with rna show ?thesis
    by (simp add: build_args_def attempt_libs_def)
qed

lemma build_args_rna_ok:
  "mode rq = ''rna'' \<Longrightarrow> length libs \<le> 9 \<Longrightarrow>
   build_args rq w d libs k lib =
     Inr (Arg ''--rna'' # concat (map (\<lambda>(i, l). pe_lib_args w i l) (zip [0..<length libs] libs))
          @ common_args rq k d)"
  using pe_args_ok [of 0 libs w]
  by (simp add: build_args_def attempt_libs_def)

lemma build_args_meta:
  "mode rq \<noteq> ''rna'' \<Longrightarrow>
   build_args rq w d libs k (Some l) = Inr (Arg ''--meta'' # pe_lib_args w 0 l @ common_args rq k d)"
  by (simp add: build_args_def attempt_libs_def)

lemma outer_build_ok:
  assumes "valid_mode (mode rq)" and "mode rq = ''rna'' \<longrightarrow> length libs \<le> 9"
    and "lib \<in> set (outer_libs rq libs)"
  shows "\<exists>args. build_args rq w d libs k lib = Inr args"
proof (cases "mode rq = ''rna''")
  case True
  with assms show ?thesis by (simp add: build_args_rna_ok)
next
  case False
  with assms obtain l where "lib = Some l"
    by (auto simp: outer_libs_def valid_mode_def)
  with False show ?thesis by (simp add: build_args_meta)
qed

lemma after_libs_stale: "stale loc w \<Longrightarrow> after_libs rq (loc, w) = Inr (True, loc)"
  by (auto simp: stale_def after_libs_def is_nonempty_file_def isfile_def)

lemma attempt_built:
  assumes out: "fs w (Path (contigs_out rq)) = Some c0"
    and ok: "build_args rq w (tmp_dirs w) libs k lib = Inr args"
    and run: "attempt env rq libs k lib (loc, w) = (r, w')"
  shows "(r = Inl (abort_error env k args) \<and> raw_transcripts env rq args = None)
       \<or> (\<exists>loc'. r = Inr loc' \<and> stale loc' w' \<and> fs w' (Path (contigs_out rq)) \<noteq> None)"
  using run attempt_Inr_stale [OF out, of env libs k lib loc]
  by (cases "raw_transcripts env rq args") (auto simp: attempt_unfold [OF out] ok)

lemma lib_loop_built:
  assumes "fs w (Path (contigs_out rq)) = Some c0"
    and "\<forall>lib\<in>set ls. \<forall>w d. \<exists>args. build_args rq w d libs k lib = Inr args"
    and "lib_loop env rq libs k ls (loc, w) = (r, w')"
  shows "(\<exists>a. r = Inl (abort_error env k a) \<and> raw_transcripts env rq a = None)
       \<or> (\<exists>loc'. r = Inr loc' \<and> (ls \<noteq> [] \<longrightarrow> stale loc' w') \<and> fs w' (Path (contigs_out rq)) \<noteq> None)"
  using assms
proof (induction ls arbitrary: loc w c0)
  case Nil
  then show ?case by auto
next
  case (Cons lib ls)
  from Cons.prems(2) obtain args where b: "build_args rq w (tmp_dirs w) libs k lib = Inr args"
    by (meson list.set_intros(1))
  obtain r1 w1 where a: "attempt env rq libs k lib (loc, w) = (r1, w1)"
    by (cases "attempt env rq libs k lib (loc, w)")
  from attempt_built [OF Cons.prems(1) b a]
  show ?case
  proof
    assume "r1 = Inl (abort_error env k args) \<and> raw_transcripts env rq args = None"
    with a Cons.prems(3) show ?thesis by auto
  next
    assume "\<exists>loc'. r1 = Inr loc' \<and> stale loc' w1 \<and> fs w1 (Path (contigs_out rq)) \<noteq> None"
    then obtain loc1 c1 where r1: "r1 = Inr loc1" and st: "stale loc1 w1"
      and o1: "fs w1 (Path (contigs_out rq)) = Some c1" by auto
    from a r1 Cons.prems(3) have rest: "lib_loop env rq libs k ls (loc1, w1) = (r, w')" by simp
    show ?thesis
    proof (cases "ls = []")
      case True
      with rest st o1 show ?thesis by auto
    next
      case False
      from Cons.prems(2) have "\<forall>lib\<in>set ls. \<forall>w d. \<exists>args. build_args rq w d libs k lib = Inr args"
        by simp
      from Cons.IH [OF o1 this rest] False show ?thesis by auto
    qed
  qed
qed

lemma kmer_loop_built:
  assumes "fs w (Path (contigs_out rq)) = Some c0"
    and "outer_libs rq libs \<noteq> []"
    and "\<forall>lib\<in>set (outer_libs rq libs). \<forall>w d k. \<exists>args. build_args rq w d libs k lib = Inr args"
    and "kmer_loop env rq libs ks (loc, w) = (r, w')"
  shows "(\<exists>k a. r = Inl (abort_error env k a) \<and> raw_transcripts env rq a = None)
       \<or> (\<exists>loc'. r = Inr loc')"
  using assms
proof (induction ks arbitrary: loc w c0)
  case Nil
  then show ?case by auto
next
  case (Cons k ks)
  let ?loc0 = "loc\<lparr>this_kmer_size_succeeded := False\<rparr>"
  obtain r1 w1 where l: "lib_loop env rq libs k (outer_libs rq libs) (?loc0, w) = (r1, w1)"
    by (cases "lib_loop env rq libs k (outer_libs rq libs) (?loc0, w)")
  from Cons.prems(3)
  have "\<forall>lib\<in>set (outer_libs rq libs). \<forall>w d. \<exists>args. build_args rq w d libs k lib = Inr args"
    by blast
  from lib_loop_built [OF Cons.prems(1) this l]
  show ?case
  proof
    assume "\<exists>a. r1 = Inl (abort_error env k a) \<and> raw_transcripts env rq a = None"
    then obtain a where "r1 = Inl (abort_error env k a)" and "raw_transcripts env rq a = None"
      by blast
    moreover with l Cons.prems(4) have "r = r1" by simp
    ultimately show ?thesis by blast
  next
    assume "\<exists>loc'. r1 = Inr loc' \<and> (outer_libs rq libs \<noteq> [] \<longrightarrow> stale loc' w1)
              \<and> fs w1 (Path (contigs_out rq)) \<noteq> None"
    with Cons.prems(2) obtain loc1 c1 where r1: "r1 = Inr loc1" and st: "stale loc1 w1"
      and o1: "fs w1 (Path (contigs_out rq)) = Some c1" by auto
    from l r1 Cons.prems(4) after_libs_stale [OF st]
    have rest: "kmer_loop env rq libs ks (loc1, w1) = (r, w')" by simp
    from Cons.IH [OF o1 Cons.prems(2) Cons.prems(3) rest] show ?thesis .
  qed
qed

section \<open>Further facts about a call\<close>

lemma after_attempt_goes_on:
  assumes "fs w (Path (contigs_out rq)) = Some c0"
    and "attempt env rq libs k lib (loc, w) = (Inr loc', w')"
  shows "after_libs rq (loc', w') = Inr (True, loc')"
    and "kmer_sizes_succeeded loc' = kmer_sizes_succeeded loc"
  using assms attempt_Inr_stale [OF assms]
  by (auto simp: after_libs_stale attempt_unfold split: sum.splits option.splits)

lemma is_nonempty_file_make_empty:
  "is_nonempty_file (make_empty p w) f \<Longrightarrow> is_nonempty_file w f"
  by (auto simp: is_nonempty_file_def isfile_def getsize_def split: if_splits)

lemma qualifying_make_empty:
  assumes "qualifying w libraries = []"
  shows "qualifying (make_empty p w) libraries = []"
  using assms is_nonempty_file_make_empty [of p w]
  by (auto simp: qualifying_def filter_empty_conv)

lemma pe_lib_args_shape:
  "\<exists>u. pe_lib_args w n l =
         [Arg (''--pe'' @ str_nat (Suc n) @ ''-1''), Arg (reads_fwd l),
          Arg (''--pe'' @ str_nat (Suc n) @ ''-2''), Arg (reads_bwd l)] @ u
       \<and> (u = [] \<or> u = [Arg (''--pe'' @ str_nat (Suc n) @ ''-s''), Arg (the (reads_unpaired l))])"
  by (simp add: pe_lib_args_def)

lemma kmer_loop_rna_too_many:
  assumes "mode rq = ''rna''" and "9 < length libs"
  shows "kmer_loop env rq libs (k # ks) (loc, w) = (Inl (AssertionError []), next_dir w)"
proof -
  have "attempt env rq libs k None (loc\<lparr>this_kmer_size_succeeded := False\<rparr>, w)
        = (Inl (AssertionError []), next_dir w)"
    by (simp add: attempt_def tmp_dir_enter_def attempt_body_def build_args_rna_fail [OF assms]
        tmp_dir_exit_def next_dir_def)
  with assms(1) show ?thesis
    by (simp add: outer_libs_def)
qed


section \<open>Evaluating the concrete inputs\<close>

lemma str_nat_values:
  "str_nat 0 = ''0''" "str_nat (Suc 0) = ''1''" "str_nat 1 = ''1''" "str_nat 2 = ''2''"
  "str_nat 3 = ''3''" "str_nat 4 = ''4''" "str_nat 5 = ''5''" "str_nat 6 = ''6''"
  "str_nat 7 = ''7''" "str_nat 8 = ''8''" "str_nat 9 = ''9''" "str_nat 10 = ''10''"
  "str_nat 21 = ''21''" "str_nat 33 = ''33''" "str_nat 55 = ''55''"
  by code_simp+

lemmas run_eval =
  assemble_def valid_mode_def make_empty_def qualifying_def is_nonempty_file_def isfile_def
  getsize_def outer_libs_def attempt_eval build_args_def attempt_libs_def pe_lib_args_def
  is_nonempty_opt_def raw_transcripts_def abort_error_def next_dir_def init_locals_def
  after_libs_def merged_def final_name_def transcripts_name_def common_args_def opt_arg_def
  str_nat_values str_int_def invoke_warnings_def lib_after_def warn_def missing_msg_def

lemmas ex_defs = ex_request_def ex_world_def lib_a_def lib_b_def ex_env_def ex_contigs_def

lemmas ex_defs2 = ex_defs ex_meta_def ex_rna_def ex_tolerant_def ex_filtering_def

lemma ex_build_args:
  "build_args ex_request w d [lib_a] k None =
     Inr ([Arg ''--rna'', Arg ''--pe1-1'', Arg ''a_1.fq'', Arg ''--pe1-2'', Arg ''a_2.fq'']
          @ common_args ex_request k d)"
  by (simp add: build_args_def attempt_libs_def ex_request_def pe_lib_args_def lib_a_def
      is_nonempty_opt_def str_nat_values)

lemma ex_raw: "raw_transcripts (ex_env (Returns (Some c))) rq args = Some c"
  by (simp add: raw_transcripts_def ex_env_def)

lemma ex_merged_unfiltered:
  "min_contig_len rq = 0 \<Longrightarrow> merged (ex_env (Returns (Some c))) rq args = c"
  by (simp add: merged_def ex_raw)

lemma ex_out: "fs (next_dir ex_world) (Path (contigs_out ex_request)) = Some ''>old''"
  by (simp add: next_dir_def ex_world_def ex_request_def)

lemma ex_fresh: "fs (next_dir ex_world) (InScratch 0 n) = None"
  by (simp add: next_dir_def ex_world_def)

lemma ex_body:
  "fst (attempt_body (ex_env (Returns (Some ex_contigs))) ex_request [lib_a] 21 None 0
        (init_locals, next_dir ex_world))
   = Inr (init_locals\<lparr>contigs_cumul_count := 1, this_kmer_size_succeeded := True,
            transcripts_fname := Some (InScratch 0 ''transcripts.fasta'')\<rparr>)"
  unfolding attempt_body_unfold [OF ex_out ex_fresh] ex_build_args ex_raw
  by (simp add: ex_merged_unfiltered final_name_def transcripts_name_def ex_request_def
      init_locals_def ex_contigs_def)

lemma ex_parse_contigs:
  "ex_parse ex_contigs = [\<lparr>header = ''>c1'', seq = ''ACGTACGT''\<rparr>, \<lparr>header = ''>c2'', seq = ''AC''\<rparr>]"
  by (simp add: ex_parse_def ex_contigs_def)


section \<open>The claims\<close>

text \<open>
  Claim C1 does not hold of the code. The test of line 157 runs after the \<^verbatim>\<open>with\<close>
  block of the last attempt has been left, so the scratch directory of
  \<^verbatim>\<open>transcripts_fname\<close> is gone, the file is never found, and the counter of k-mer sizes
  that succeeded is never incremented (lemma \<open>after_attempt_goes_on\<close>). With k-mer sizes
  21, 33 and 55, \<^verbatim>\<open>max_kmer_sizes = 2\<close> and an assembler that writes the same two contigs
  at every invocation, the call makes three invocations, the third with \<^verbatim>\<open>-k 55\<close>, and
  merges the transcripts three times.
\<close>

theorem third_kmer_size_is_attempted:
  "kmer_sizes ex_request = [21, 33, 55] \<and> max_kmer_sizes ex_request = 2 \<and> mode ex_request = ''rna''
   \<and> tool (ex_env (Returns (Some ex_contigs))) = (\<lambda>args. Returns (Some ex_contigs))
   \<and> ex_contigs \<noteq> []
   \<and> fst (assemble (ex_env (Returns (Some ex_contigs))) ex_request [lib_a] ex_world) = None
   \<and> calls (snd (assemble (ex_env (Returns (Some ex_contigs))) ex_request [lib_a] ex_world)) =
       [[Arg ''--rna'', Arg ''--pe1-1'', Arg ''a_1.fq'', Arg ''--pe1-2'', Arg ''a_2.fq'',
         Arg ''-k'', Arg ''21'', Arg ''-m8'', Arg ''-t'', Arg ''4'', Arg ''-o'', ArgDir 0],
        [Arg ''--rna'', Arg ''--pe1-1'', Arg ''a_1.fq'', Arg ''--pe1-2'', Arg ''a_2.fq'',
         Arg ''-k'', Arg ''33'', Arg ''-m8'', Arg ''-t'', Arg ''4'', Arg ''-o'', ArgDir 1],
        [Arg ''--rna'', Arg ''--pe1-1'', Arg ''a_1.fq'', Arg ''--pe1-2'', Arg ''a_2.fq'',
         Arg ''-k'', Arg ''55'', Arg ''-m8'', Arg ''-t'', Arg ''4'', Arg ''-o'', ArgDir 2]]
   \<and> fs (snd (assemble (ex_env (Returns (Some ex_contigs))) ex_request [lib_a] ex_world))
        (Path ''out.fa'') = Some (ex_contigs @ ex_contigs @ ex_contigs)"
  by (simp add: run_eval ex_defs)

text \<open>
  Claim C2. Whatever the state a run is in, as long as \<^verbatim>\<open>contigs_out\<close> is there with
  contents \<open>c0\<close>: one attempt makes at most one invocation and leaves \<open>c0\<close> followed by
  what that invocation's attempt merges; the loop over any list of k-mer sizes, whether
  it ends normally or with an exception, leaves \<open>c0\<close> followed by what each attempt merged,
  in the order of the invocations; and inside the scratch directory an attempt that
  completes has written exactly these bytes to the cumulative file numbered by the
  attempt counter, a file that was not there before, has copied it over
  \<^verbatim>\<open>contigs_out\<close>, and has advanced the counter. Nothing between attempts shortens
  \<^verbatim>\<open>contigs_out\<close>.
\<close>

theorem contigs_out_append_only:
  assumes "fs w (Path (contigs_out rq)) = Some c0"
  shows "(\<forall>r w'. attempt env rq libraries kmer_size lib (loc, w) = (r, w') \<longrightarrow>
            (\<exists>new. length new \<le> 1 \<and> calls w' = calls w @ new
               \<and> fs w' (Path (contigs_out rq)) = Some (c0 @ concat (map (merged env rq) new))))
       \<and> (\<forall>r w'. kmer_loop env rq libraries ks (loc, w) = (r, w') \<longrightarrow>
            (\<exists>new. calls w' = calls w @ new
               \<and> fs w' (Path (contigs_out rq)) = Some (c0 @ concat (map (merged env rq) new))))
       \<and> (\<forall>d w0 loc' w1. tmp_dir_enter w = (d, w0) \<longrightarrow>
            attempt_body env rq libraries kmer_size lib d (loc, w0) = (Inr loc', w1) \<longrightarrow>
            (\<exists>args tf. calls w1 = calls w @ [args]
               \<and> transcripts_fname loc' = Some tf \<and> fs w1 tf = Some (merged env rq args)
               \<and> fs w0 (InScratch d (cumul_name (contigs_cumul_count loc))) = None
               \<and> fs w1 (InScratch d (cumul_name (contigs_cumul_count loc)))
                   = Some (c0 @ merged env rq args)
               \<and> fs w1 (Path (contigs_out rq)) = Some (c0 @ merged env rq args)
               \<and> contigs_cumul_count loc' = Suc (contigs_cumul_count loc)))"
proof (intro conjI allI impI)
  fix r w'
  assume "attempt env rq libraries kmer_size lib (loc, w) = (r, w')"
  from attempt_summary [OF assms this] obtain new
    where "length new \<le> 1" and "summary env rq c0 w r w' new" by blast
  then show "\<exists>new. length new \<le> 1 \<and> calls w' = calls w @ new
      \<and> fs w' (Path (contigs_out rq)) = Some (c0 @ concat (map (merged env rq) new))"
    by (intro exI [of _ "map args_of new"]) (simp add: summary_def comp_def)
next
  fix r w'
  assume "kmer_loop env rq libraries ks (loc, w) = (r, w')"
  from kmer_loop_summary [OF assms this] obtain new
    where "summary env rq c0 w r w' new" by blast
  then show "\<exists>new. calls w' = calls w @ new
      \<and> fs w' (Path (contigs_out rq)) = Some (c0 @ concat (map (merged env rq) new))"
    by (intro exI [of _ "map args_of new"]) (simp add: summary_def comp_def)
next
  fix d w0 loc' w1
  assume enter: "tmp_dir_enter w = (d, w0)"
    and body: "attempt_body env rq libraries kmer_size lib d (loc, w0) = (Inr loc', w1)"
  from enter have d: "d = tmp_dirs w" and w0: "w0 = next_dir w"
    by (auto simp: tmp_dir_enter_def next_dir_def)
  have out0: "fs w0 (Path (contigs_out rq)) = Some c0"
    using assms by (simp add: w0 next_dir_def)
  have fresh: "\<And>n. fs w0 (InScratch d n) = None"
    by (simp add: w0 d next_dir_def)
  have calls0: "calls w0 = calls w"
    by (simp add: w0 next_dir_def)
  from body [unfolded attempt_body_unfold [OF out0 fresh]]
  show "\<exists>args tf. calls w1 = calls w @ [args]
      \<and> transcripts_fname loc' = Some tf \<and> fs w1 tf = Some (merged env rq args)
      \<and> fs w0 (InScratch d (cumul_name (contigs_cumul_count loc))) = None
      \<and> fs w1 (InScratch d (cumul_name (contigs_cumul_count loc))) = Some (c0 @ merged env rq args)
      \<and> fs w1 (Path (contigs_out rq)) = Some (c0 @ merged env rq args)
      \<and> contigs_cumul_count loc' = Suc (contigs_cumul_count loc)"
    by (auto simp: fresh calls0 split: sum.splits option.splits)
qed

theorem contigs_out_append_only_witness:
  "fs ex_world (Path ''out.fa'') = Some ''>old''
   \<and> (\<exists>new. length new \<le> 1
          \<and> calls (snd (attempt (ex_env (Returns (Some ex_contigs))) ex_request [lib_a] 21 None
                        (init_locals, ex_world))) = new
          \<and> fs (snd (attempt (ex_env (Returns (Some ex_contigs))) ex_request [lib_a] 21 None
                        (init_locals, ex_world))) (Path ''out.fa'')
              = Some (''>old'' @ concat (map (\<lambda>a. ex_contigs) new)))
   \<and> (\<exists>new. calls (snd (kmer_loop (ex_env (Returns (Some ex_contigs))) ex_request [lib_a] [21, 33]
                        (init_locals, ex_world))) = new
          \<and> fs (snd (kmer_loop (ex_env (Returns (Some ex_contigs))) ex_request [lib_a] [21, 33]
                        (init_locals, ex_world))) (Path ''out.fa'')
              = Some (''>old'' @ concat (map (\<lambda>a. ex_contigs) new)))
   \<and> (\<exists>args. calls (snd (attempt_body (ex_env (Returns (Some ex_contigs))) ex_request [lib_a] 21 None
                        0 (init_locals, next_dir ex_world))) = [args]
          \<and> fs (snd (attempt_body (ex_env (Returns (Some ex_contigs))) ex_request [lib_a] 21 None
                        0 (init_locals, next_dir ex_world))) (InScratch 0 ''transcripts.fasta'')
              = Some ex_contigs
          \<and> fs (next_dir ex_world) (InScratch 0 ''contigs_cumul.0.fasta'') = None
          \<and> fs (snd (attempt_body (ex_env (Returns (Some ex_contigs))) ex_request [lib_a] 21 None
                        0 (init_locals, next_dir ex_world))) (InScratch 0 ''contigs_cumul.0.fasta'')
              = Some (''>old'' @ ex_contigs)
          \<and> fs (snd (attempt_body (ex_env (Returns (Some ex_contigs))) ex_request [lib_a] 21 None
                        0 (init_locals, next_dir ex_world))) (Path ''out.fa'')
              = Some (''>old'' @ ex_contigs))"
proof -
  let ?env = "ex_env (Returns (Some ex_contigs))"
  let ?A = "attempt ?env ex_request [lib_a] 21 None (init_locals, ex_world)"
  let ?K = "kmer_loop ?env ex_request [lib_a] [21, 33] (init_locals, ex_world)"
  let ?B = "attempt_body ?env ex_request [lib_a] 21 None 0 (init_locals, next_dir ex_world)"
  have out: "fs ex_world (Path (contigs_out ex_request)) = Some ''>old''"
    by (simp add: ex_world_def ex_request_def)
  have enter: "tmp_dir_enter ex_world = (0, next_dir ex_world)"
    by (simp add: tmp_dir_enter_def next_dir_def ex_world_def)
  have body: "?B = (Inr (init_locals\<lparr>contigs_cumul_count := 1, this_kmer_size_succeeded := True,
            transcripts_fname := Some (InScratch 0 ''transcripts.fasta'')\<rparr>), snd ?B)"
    using ex_body by (simp add: prod_eq_iff)
  have m: "merged ?env ex_request = (\<lambda>a. ex_contigs)"
    by (rule ext) (simp add: ex_merged_unfiltered ex_request_def)
  have c: "cumul_name 0 = ''contigs_cumul.0.fasta''"
    by (simp add: cumul_name_def str_nat_values)
  from contigs_out_append_only [OF out, of ?env "[lib_a]" 21 None init_locals "[21, 33]"]
  have 1: "\<exists>new. length new \<le> 1 \<and> calls (snd ?A) = calls ex_world @ new
             \<and> fs (snd ?A) (Path (contigs_out ex_request)) = Some (''>old'' @ concat (map (merged ?env ex_request) new))"
   and 2: "\<exists>new. calls (snd ?K) = calls ex_world @ new
             \<and> fs (snd ?K) (Path (contigs_out ex_request)) = Some (''>old'' @ concat (map (merged ?env ex_request) new))"
   and 3: "\<exists>args tf. calls (snd ?B) = calls ex_world @ [args]
               \<and> transcripts_fname (init_locals\<lparr>contigs_cumul_count := 1, this_kmer_size_succeeded := True,
            transcripts_fname := Some (InScratch 0 ''transcripts.fasta'')\<rparr>) = Some tf
               \<and> fs (snd ?B) tf = Some (merged ?env ex_request args)
               \<and> fs (next_dir ex_world) (InScratch 0 (cumul_name (contigs_cumul_count init_locals))) = None
               \<and> fs (snd ?B) (InScratch 0 (cumul_name (contigs_cumul_count init_locals)))
                   = Some (''>old'' @ merged ?env ex_request args)
               \<and> fs (snd ?B) (Path (contigs_out ex_request)) = Some (''>old'' @ merged ?env ex_request args)
               \<and> contigs_cumul_count (init_locals\<lparr>contigs_cumul_count := 1, this_kmer_size_succeeded := True,
            transcripts_fname := Some (InScratch 0 ''transcripts.fasta'')\<rparr>) = Suc (contigs_cumul_count init_locals)"
    using enter body by (metis prod.collapse)+
  have cw: "calls ex_world = []" "contigs_out ex_request = ''out.fa''" "contigs_cumul_count init_locals = 0"
    by (simp_all add: ex_world_def ex_request_def init_locals_def)
  from out 1 2 3 show ?thesis
    unfolding m c cw by auto
qed

text \<open>
  Claim C3. Without \<^verbatim>\<open>always_succeed\<close>, if the invocation number \<open>i\<close> of a call raises
  or returns without the transcripts file, then the call raises: the exception of the
  assembler in the first case, the \<^verbatim>\<open>RuntimeError\<close> naming one of the k-mer sizes in the
  second. That invocation is the last one of the call, every invocation before it left
  its transcripts file, and \<^verbatim>\<open>contigs_out\<close> holds what the attempts before it merged,
  in order.
\<close>

theorem fatal_attempt_aborts:
  assumes strict: "\<not> always_succeed rq"
    and run: "assemble env rq libraries w = (r, w')"
    and new: "calls w' = calls w @ new"
    and i: "i < length new"
    and failed: "tool env (new ! i) = Raises \<or> tool env (new ! i) = Returns None"
  shows "(\<exists>k\<in>set (kmer_sizes rq).
            r = Some (if tool env (new ! i) = Raises then ExecuteError
                      else RuntimeError (missing_msg k)))
       \<and> Suc i = length new
       \<and> (\<forall>j<i. \<exists>c. tool env (new ! j) = Returns (Some c))
       \<and> fs w' (Path (contigs_out rq)) = Some (concat (map (merged env rq) (take i new)))"
proof -
  from assemble_calls [OF run] obtain rr new'
    where c: "calls w' = calls w @ map args_of new'"
      and f: "fs w' (Path (contigs_out rq))
              = (if valid_mode (mode rq)
                 then Some (concat (map (\<lambda>a. merged env rq (args_of a)) new'))
                 else fs w (Path (contigs_out rq)))"
      and t: "trace_ok env rq rr new'"
      and ks: "\<forall>a\<in>set new'. kmer_of a \<in> set (kmer_sizes rq)"
      and r: "new' \<noteq> [] \<longrightarrow> r = (case rr of Inl e \<Rightarrow> Some e | Inr loc \<Rightarrow> None)"
    by blast
  from c new have n: "new = map args_of new'" by simp
  with i have ne: "new' \<noteq> []" and i': "i < length new'" by auto
  from failed strict have none: "raw_transcripts env rq (new ! i) = None"
    by (auto simp: raw_transcripts_def)
  have raw_ok: "\<And>a. raw_transcripts env rq a \<noteq> None \<Longrightarrow> \<exists>c. tool env a = Returns (Some c)"
    using strict by (auto simp: raw_transcripts_def split: tool_result.splits option.splits)
  from none n i' have "\<not> (\<forall>a\<in>set new'. raw_transcripts env rq (args_of a) \<noteq> None)"
    by (metis nth_map nth_mem)
  with t obtain pre a where pa: "new' = pre @ [a]"
    and pre: "\<forall>b\<in>set pre. raw_transcripts env rq (args_of b) \<noteq> None"
    and a: "raw_transcripts env rq (args_of a) = None"
    and rr: "rr = Inl (abort_error env (kmer_of a) (args_of a))"
    by (auto simp: trace_ok_def)
  have ip: "i = length pre"
  proof (rule ccontr)
    assume "i \<noteq> length pre"
    with i' pa have "i < length pre" by simp
    with pa n have "new ! i = args_of (pre ! i)" by (simp add: nth_append)
    with pre \<open>i < length pre\<close> none show False by (metis nth_mem)
  qed
  with pa n have at: "new ! i = args_of a" and tk: "take i new = map args_of pre"
    by (simp_all add: nth_append)
  have vm: "valid_mode (mode rq)"
  proof (rule ccontr)
    assume "\<not> valid_mode (mode rq)"
    with run have "calls w' = calls w" by (simp add: assemble_def)
    with new i show False by simp
  qed
  from ks pa have "kmer_of a \<in> set (kmer_sizes rq)" by simp
  moreover from r ne rr at
  have "r = Some (if tool env (new ! i) = Raises then ExecuteError
                  else RuntimeError (missing_msg (kmer_of a)))"
    by (simp add: abort_error_def)
  moreover from ip pa n have "Suc i = length new" by simp
  moreover have "\<forall>j<i. \<exists>c. tool env (new ! j) = Returns (Some c)"
  proof (intro allI impI)
    fix j assume "j < i"
    with ip pa n have "new ! j = args_of (pre ! j)" "pre ! j \<in> set pre"
      by (simp_all add: nth_append)
    with pre show "\<exists>c. tool env (new ! j) = Returns (Some c)"
      by (auto intro: raw_ok)
  qed
  moreover from f vm pa a tk
  have "fs w' (Path (contigs_out rq)) = Some (concat (map (merged env rq) (take i new)))"
    by (simp add: merged_aborted comp_def)
  ultimately show ?thesis by blast
qed

theorem fatal_attempt_aborts_witness:
  "\<not> always_succeed ex_request
   \<and> calls (snd (assemble (ex_env Raises) ex_request [lib_a] ex_world))
       = calls ex_world
         @ [[Arg ''--rna'', Arg ''--pe1-1'', Arg ''a_1.fq'', Arg ''--pe1-2'', Arg ''a_2.fq'',
             Arg ''-k'', Arg ''21'', Arg ''-m8'', Arg ''-t'', Arg ''4'', Arg ''-o'', ArgDir 0]]
   \<and> tool (ex_env Raises)
        [Arg ''--rna'', Arg ''--pe1-1'', Arg ''a_1.fq'', Arg ''--pe1-2'', Arg ''a_2.fq'',
         Arg ''-k'', Arg ''21'', Arg ''-m8'', Arg ''-t'', Arg ''4'', Arg ''-o'', ArgDir 0] = Raises
   \<and> fst (assemble (ex_env Raises) ex_request [lib_a] ex_world) = Some ExecuteError
   \<and> fs (snd (assemble (ex_env Raises) ex_request [lib_a] ex_world)) (Path ''out.fa'') = Some []"
proof -
  let ?A = "assemble (ex_env Raises) ex_request [lib_a] ex_world"
  let ?args = "[Arg ''--rna'', Arg ''--pe1-1'', Arg ''a_1.fq'', Arg ''--pe1-2'', Arg ''a_2.fq'',
             Arg ''-k'', Arg ''21'', Arg ''-m8'', Arg ''-t'', Arg ''4'', Arg ''-o'', ArgDir 0]"
  have strict: "\<not> always_succeed ex_request"
    by (simp add: ex_request_def)
  have new: "calls (snd ?A) = calls ex_world @ [?args]"
    by (simp add: run_eval ex_defs)
  have i: "0 < length [?args]"
    by simp
  have failed: "tool (ex_env Raises) ([?args] ! 0) = Raises \<or> tool (ex_env Raises) ([?args] ! 0) = Returns None"
    by (simp add: ex_env_def)
  have out: "contigs_out ex_request = ''out.fa''"
    by (simp add: ex_request_def)
  from fatal_attempt_aborts [OF strict prod.collapse [symmetric] new i failed]
  have "fst ?A = Some ExecuteError" and "fs (snd ?A) (Path ''out.fa'') = Some []"
    using failed by (simp_all add: out ex_env_def)
  with strict new show ?thesis by (simp add: ex_env_def)
qed



text \<open>
  Claim C5, as stated, fails for a call whose \<^verbatim>\<open>mode\<close> is neither \<^verbatim>\<open>'rna'\<close> nor
  \<^verbatim>\<open>'meta'\<close>: the assertion of line 79 comes first, the call raises, and
  \<^verbatim>\<open>contigs_out\<close> keeps what it held.
\<close>

theorem no_libraries_counterexample:
  "qualifying ex_world [lib_none] = []
   \<and> assemble (ex_env (Returns (Some ex_contigs))) (ex_request\<lparr>mode := ''dna''\<rparr>) [lib_none] ex_world
       = (Some (AssertionError ''Invalid SPAdes mode: dna''), ex_world)
   \<and> fs ex_world (Path (contigs_out (ex_request\<lparr>mode := ''dna''\<rparr>))) = Some ''>old''"
  by (simp add: run_eval ex_defs lib_none_def)

text \<open>
  Claim C5, amended: for every call with a valid mode in which no library has forward
  reads that are a non-empty file, the call returns normally, makes no invocation,
  logs the warning, and leaves \<^verbatim>\<open>contigs_out\<close> existing and empty; nothing else
  changes.
\<close>

theorem no_libraries_is_not_an_error:
  assumes "valid_mode (mode rq)" and "qualifying w libraries = []"
  shows "assemble env rq libraries w
         = (None, w\<lparr>fs := (fs w)(Path (contigs_out rq) \<mapsto> []),
                     warnings := warnings w @ [NoLibraries]\<rparr>)"
  using assms qualifying_make_empty [OF assms(2), of "Path (contigs_out rq)"]
  by (simp add: assemble_def warn_def make_empty_def)

theorem no_libraries_is_not_an_error_witness:
  "valid_mode (mode ex_request) \<and> qualifying ex_world [lib_none] = []
   \<and> fst (assemble (ex_env Raises) ex_request [lib_none] ex_world) = None
   \<and> calls (snd (assemble (ex_env Raises) ex_request [lib_none] ex_world)) = []
   \<and> warnings (snd (assemble (ex_env Raises) ex_request [lib_none] ex_world)) = [NoLibraries]
   \<and> fs (snd (assemble (ex_env Raises) ex_request [lib_none] ex_world)) (Path ''out.fa'') = Some []"
proof -
  have valid: "valid_mode (mode ex_request)"
    by (simp add: valid_mode_def ex_request_def)
  have none: "qualifying ex_world [lib_none] = []"
    by (simp add: run_eval ex_defs lib_none_def)
  from no_libraries_is_not_an_error [OF valid none, of "ex_env Raises"] valid none
  show ?thesis
    by (simp add: ex_request_def ex_world_def)
qed

text \<open>
  Claim C6. With a positive \<^verbatim>\<open>min_contig_len\<close>, an attempt that completes has read the
  transcripts file left by the invocation as records, has kept those whose sequence is at
  least that long, and has written them to the scratch file
  \<^verbatim>\<open>transcripts_over_<len>bp.<count>.fasta\<close>, numbered by the attempt counter; that
  file is what \<^verbatim>\<open>transcripts_fname\<close> names afterwards, and its contents are exactly what
  \<^verbatim>\<open>contigs_out\<close> has gained. Every record kept is long enough, and no shorter record of
  the transcripts is among them.
\<close>

theorem short_contigs_dropped:
  assumes len: "0 < min_contig_len rq"
    and out: "fs w (Path (contigs_out rq)) = Some c0"
    and enter: "tmp_dir_enter w = (d, w0)"
    and body: "attempt_body env rq libraries kmer_size lib d (loc, w0) = (Inr loc', w1)"
  shows "\<exists>raw kept.
           fs w1 (InScratch d (transcripts_name rq)) = Some raw
         \<and> kept = filter (\<lambda>r. min_contig_len rq \<le> int (length (seq r))) (seqio_parse env raw)
         \<and> transcripts_fname loc'
             = Some (InScratch d (over_name (min_contig_len rq) (contigs_cumul_count loc)))
         \<and> fs w1 (InScratch d (over_name (min_contig_len rq) (contigs_cumul_count loc)))
             = Some (seqio_write env kept)
         \<and> fs w1 (Path (contigs_out rq)) = Some (c0 @ seqio_write env kept)
         \<and> (\<forall>r\<in>set kept. min_contig_len rq \<le> int (length (seq r)))
         \<and> (\<forall>r\<in>set (seqio_parse env raw).
               int (length (seq r)) < min_contig_len rq \<longrightarrow> r \<notin> set kept)"
proof -
  from enter have d: "d = tmp_dirs w" and w0: "w0 = next_dir w"
    by (auto simp: tmp_dir_enter_def next_dir_def)
  have out0: "fs w0 (Path (contigs_out rq)) = Some c0"
    using out by (simp add: w0 next_dir_def)
  have fresh: "\<And>n. fs w0 (InScratch d n) = None"
    by (simp add: w0 d next_dir_def)
  from len have f: "final_name rq (contigs_cumul_count loc)
                    = over_name (min_contig_len rq) (contigs_cumul_count loc)"
    by (simp add: final_name_def)
  from body [unfolded attempt_body_unfold [OF out0 fresh]] obtain args raw
    where "raw_transcripts env rq args = Some raw"
      and l: "transcripts_fname loc'
              = Some (InScratch d (over_name (min_contig_len rq) (contigs_cumul_count loc)))"
      and w1: "fs w1 = (fs w0)(InScratch d (transcripts_name rq) \<mapsto> raw,
                      InScratch d (final_name rq (contigs_cumul_count loc)) \<mapsto> merged env rq args,
                      InScratch d (cumul_name (contigs_cumul_count loc)) \<mapsto> c0 @ merged env rq args,
                      Path (contigs_out rq) \<mapsto> c0 @ merged env rq args)"
    by (auto simp: f split: sum.splits option.splits)
  with len have m: "merged env rq args = seqio_write env (sans_short env rq raw)"
    by (simp add: merged_def)
  show ?thesis
    apply (rule exI [of _ raw])
    apply (rule exI [of _ "sans_short env rq raw"])
    using l by (simp add: w1 f m sans_short_def)
qed

theorem short_contigs_dropped_witness:
  "0 < min_contig_len ex_filtering
   \<and> fs ex_world (Path (contigs_out ex_filtering)) = Some ''>old''
   \<and> tmp_dir_enter ex_world = (0, next_dir ex_world)
   \<and> fst (attempt_body (ex_env (Returns (Some ex_contigs))) ex_filtering [lib_a] 21 None 0
            (init_locals, next_dir ex_world))
       = Inr (init_locals\<lparr>contigs_cumul_count := 1, this_kmer_size_succeeded := True,
                transcripts_fname := Some (InScratch 0 ''transcripts_over_5bp.0.fasta'')\<rparr>)
   \<and> fs (snd (attempt_body (ex_env (Returns (Some ex_contigs))) ex_filtering [lib_a] 21 None 0
            (init_locals, next_dir ex_world))) (InScratch 0 ''transcripts.fasta'')
       = Some ex_contigs
   \<and> seqio_parse (ex_env (Returns (Some ex_contigs))) ex_contigs
       = [\<lparr>header = ''>c1'', seq = ''ACGTACGT''\<rparr>, \<lparr>header = ''>c2'', seq = ''AC''\<rparr>]
   \<and> fs (snd (attempt_body (ex_env (Returns (Some ex_contigs))) ex_filtering [lib_a] 21 None 0
            (init_locals, next_dir ex_world))) (InScratch 0 ''transcripts_over_5bp.0.fasta'')
       = Some (''>c1'' @ [CHR 0x0A] @ ''ACGTACGT'' @ [CHR 0x0A])
   \<and> fs (snd (attempt_body (ex_env (Returns (Some ex_contigs))) ex_filtering [lib_a] 21 None 0
            (init_locals, next_dir ex_world))) (Path ''out.fa'')
       = Some (''>old'' @ ''>c1'' @ [CHR 0x0A] @ ''ACGTACGT'' @ [CHR 0x0A])"
proof -
  let ?env = "ex_env (Returns (Some ex_contigs))"
  let ?B = "attempt_body ?env ex_filtering [lib_a] 21 None 0 (init_locals, next_dir ex_world)"
  let ?L = "init_locals\<lparr>contigs_cumul_count := 1, this_kmer_size_succeeded := True,
                transcripts_fname := Some (InScratch 0 ''transcripts_over_5bp.0.fasta'')\<rparr>"
  have len: "0 < min_contig_len ex_filtering" and l5: "min_contig_len ex_filtering = 5"
    and out: "contigs_out ex_filtering = ''out.fa''"
    and tn: "transcripts_name ex_filtering = ''transcripts.fasta''"
    by (simp_all add: ex_defs2 transcripts_name_def)
  have old: "fs ex_world (Path (contigs_out ex_filtering)) = Some ''>old''"
    by (simp add: ex_defs2)
  have enter: "tmp_dir_enter ex_world = (0, next_dir ex_world)"
    by (simp add: tmp_dir_enter_def next_dir_def ex_world_def)
  have old0: "fs (next_dir ex_world) (Path (contigs_out ex_filtering)) = Some ''>old''"
    by (simp add: next_dir_def ex_defs2)
  have fresh: "\<And>n. fs (next_dir ex_world) (InScratch 0 n) = None"
    by (simp add: next_dir_def ex_world_def)
  have parse: "seqio_parse ?env ex_contigs
       = [\<lparr>header = ''>c1'', seq = ''ACGTACGT''\<rparr>, \<lparr>header = ''>c2'', seq = ''AC''\<rparr>]"
    by (simp add: ex_env_def ex_parse_contigs)
  have wr: "seqio_write ?env [\<lparr>header = ''>c1'', seq = ''ACGTACGT''\<rparr>]
               = ''>c1'' @ [CHR 0x0A] @ ''ACGTACGT'' @ [CHR 0x0A]"
    by (simp add: ex_env_def ex_write_def)
  have over: "over_name 5 0 = ''transcripts_over_5bp.0.fasta''"
    by (simp add: over_name_def str_int_def str_nat_values)
  have built: "build_args ex_filtering (next_dir ex_world) 0 [lib_a] 21 None =
       Inr [Arg ''--rna'', Arg ''--pe1-1'', Arg ''a_1.fq'', Arg ''--pe1-2'', Arg ''a_2.fq'',
            Arg ''-k'', Arg ''21'', Arg ''-m8'', Arg ''-t'', Arg ''4'', Arg ''-o'', ArgDir 0]"
    by (simp add: run_eval ex_defs2)
  have raw: "\<And>a. raw_transcripts ?env ex_filtering a = Some ex_contigs"
    by (simp add: raw_transcripts_def ex_env_def)
  have m: "\<And>a. merged ?env ex_filtering a = ''>c1'' @ [CHR 0x0A] @ ''ACGTACGT'' @ [CHR 0x0A]"
    by (simp add: merged_def raw l5 sans_short_def parse wr)
  have fin: "final_name ex_filtering 0 = ''transcripts_over_5bp.0.fasta''"
    by (simp add: final_name_def l5 over)
  have c0: "contigs_cumul_count init_locals = 0"
    by (simp add: init_locals_def)
  have B: "fst ?B = Inr ?L"
    unfolding attempt_body_unfold [OF old0 fresh] built
    by (simp add: raw m c0 fin init_locals_def)
  have tf: "fs (snd ?B) (InScratch 0 ''transcripts.fasta'') = Some ex_contigs"
    unfolding attempt_body_unfold [OF old0 fresh] built
    by (simp add: raw c0 fin tn cumul_name_def str_nat_values)
  from B have body: "?B = (Inr ?L, snd ?B)"
    by (simp add: prod_eq_iff)
  from short_contigs_dropped [OF len old enter body]
  obtain raw' kept where r: "fs (snd ?B) (InScratch 0 (transcripts_name ex_filtering)) = Some raw'"
    and k: "kept = filter (\<lambda>r. min_contig_len ex_filtering \<le> int (length (seq r)))
                     (seqio_parse ?env raw')"
    and o: "fs (snd ?B) (InScratch 0 (over_name (min_contig_len ex_filtering)
                                       (contigs_cumul_count init_locals)))
            = Some (seqio_write ?env kept)"
    and p: "fs (snd ?B) (Path (contigs_out ex_filtering)) = Some (''>old'' @ seqio_write ?env kept)"
    by blast
  from r tf have "raw' = ex_contigs" by (simp add: tn)
  with k have "kept = [\<lparr>header = ''>c1'', seq = ''ACGTACGT''\<rparr>]"
    by (simp add: parse l5)
  with o p have "fs (snd ?B) (InScratch 0 ''transcripts_over_5bp.0.fasta'')
                 = Some (''>c1'' @ [CHR 0x0A] @ ''ACGTACGT'' @ [CHR 0x0A])"
    and "fs (snd ?B) (Path ''out.fa'') = Some (''>old'' @ ''>c1'' @ [CHR 0x0A] @ ''ACGTACGT'' @ [CHR 0x0A])"
    by (simp_all add: wr l5 c0 over out)
  with len old enter B tf parse show ?thesis
    by simp
qed

text \<open>
  Claim C7. When the assembler returns without raising and the transcripts file, which
  was not there before the invocation, is still not there, the check of line 131 finds
  it out. With \<^verbatim>\<open>always_succeed\<close> a warning is logged and an empty file is made in its
  place: the file is there, has size 0 and does not count as non-empty. Without it the
  call raises a \<^verbatim>\<open>RuntimeError\<close>, an exception other than the one of a failed
  invocation, whose message ends with the k-mer size of the attempt. The invocation is
  recorded in both cases. Every attempt makes this check: an attempt whose invocation
  has these arguments completes in the first case and raises that error in the second.
\<close>

theorem missing_transcripts_detected:
  assumes "tool env args = Returns None" and "fs w tf = None"
  shows "invoke env rq kmer_size lib args tf w =
           (if always_succeed rq
            then (None, w\<lparr>fs := (fs w)(tf \<mapsto> []), calls := calls w @ [args],
                           warnings := warnings w @ [Message (missing_msg kmer_size)]\<rparr>)
            else (Some (RuntimeError (missing_msg kmer_size)), w\<lparr>calls := calls w @ [args]\<rparr>))
       \<and> missing_msg kmer_size
           = ''SPAdes failed to make transcripts.fasta for k='' @ str_nat kmer_size
       \<and> RuntimeError (missing_msg kmer_size) \<noteq> ExecuteError
       \<and> (always_succeed rq \<longrightarrow>
            isfile (snd (invoke env rq kmer_size lib args tf w)) tf
            \<and> getsize (snd (invoke env rq kmer_size lib args tf w)) tf = 0
            \<and> \<not> is_nonempty_file (snd (invoke env rq kmer_size lib args tf w)) tf)
       \<and> (\<forall>libs lib0 loc w1 c0.
             fs w1 (Path (contigs_out rq)) = Some c0
             \<and> build_args rq w1 (tmp_dirs w1) libs kmer_size lib0 = Inr args
             \<longrightarrow> (if always_succeed rq
                  then \<exists>loc'. fst (attempt env rq libs kmer_size lib0 (loc, w1)) = Inr loc'
                  else fst (attempt env rq libs kmer_size lib0 (loc, w1))
                       = Inl (RuntimeError (missing_msg kmer_size))))"
proof -
  have "raw_transcripts env rq args = (if always_succeed rq then Some [] else None)"
    and "abort_error env kmer_size args = RuntimeError (missing_msg kmer_size)"
    using assms(1) by (simp_all add: raw_transcripts_def abort_error_def)
  then have "\<forall>libs lib0 loc w1 c0.
             fs w1 (Path (contigs_out rq)) = Some c0
             \<and> build_args rq w1 (tmp_dirs w1) libs kmer_size lib0 = Inr args
             \<longrightarrow> (if always_succeed rq
                  then \<exists>loc'. fst (attempt env rq libs kmer_size lib0 (loc, w1)) = Inr loc'
                  else fst (attempt env rq libs kmer_size lib0 (loc, w1))
                       = Inl (RuntimeError (missing_msg kmer_size)))"
    by (auto simp: attempt_unfold)
  with assms show ?thesis
    by (simp add: invoke_def execute_def isfile_def getsize_def is_nonempty_file_def
        make_empty_def warn_def missing_msg_def)
qed

theorem missing_transcripts_detected_witness:
  "tool (ex_env (Returns None))
        [Arg ''--rna'', Arg ''--pe1-1'', Arg ''a_1.fq'', Arg ''--pe1-2'', Arg ''a_2.fq'',
         Arg ''-k'', Arg ''21'', Arg ''-m8'', Arg ''-t'', Arg ''4'', Arg ''-o'', ArgDir 0]
       = Returns None
   \<and> fs (next_dir ex_world) (InScratch 0 ''transcripts.fasta'') = None
   \<and> fs ex_world (Path (contigs_out ex_request)) = Some ''>old''
   \<and> build_args ex_request ex_world (tmp_dirs ex_world) [lib_a] 21 None =
       Inr [Arg ''--rna'', Arg ''--pe1-1'', Arg ''a_1.fq'', Arg ''--pe1-2'', Arg ''a_2.fq'',
            Arg ''-k'', Arg ''21'', Arg ''-m8'', Arg ''-t'', Arg ''4'', Arg ''-o'', ArgDir 0]
   \<and> \<not> always_succeed ex_request
   \<and> fst (invoke (ex_env (Returns None)) ex_request 21 None
             [Arg ''--rna'', Arg ''--pe1-1'', Arg ''a_1.fq'', Arg ''--pe1-2'', Arg ''a_2.fq'',
              Arg ''-k'', Arg ''21'', Arg ''-m8'', Arg ''-t'', Arg ''4'', Arg ''-o'', ArgDir 0]
             (InScratch 0 ''transcripts.fasta'') (next_dir ex_world))
       = Some (RuntimeError ''SPAdes failed to make transcripts.fasta for k=21'')
   \<and> fst (attempt (ex_env (Returns None)) ex_request [lib_a] 21 None (init_locals, ex_world))
       = Inl (RuntimeError ''SPAdes failed to make transcripts.fasta for k=21'')
   \<and> always_succeed ex_tolerant
   \<and> fs ex_world (Path (contigs_out ex_tolerant)) = Some ''>old''
   \<and> build_args ex_tolerant ex_world (tmp_dirs ex_world) [lib_a] 21 None =
       Inr [Arg ''--rna'', Arg ''--pe1-1'', Arg ''a_1.fq'', Arg ''--pe1-2'', Arg ''a_2.fq'',
            Arg ''-k'', Arg ''21'', Arg ''-m8'', Arg ''-t'', Arg ''4'', Arg ''-o'', ArgDir 0]
   \<and> fst (invoke (ex_env (Returns None)) ex_tolerant 21 None
             [Arg ''--rna'', Arg ''--pe1-1'', Arg ''a_1.fq'', Arg ''--pe1-2'', Arg ''a_2.fq'',
              Arg ''-k'', Arg ''21'', Arg ''-m8'', Arg ''-t'', Arg ''4'', Arg ''-o'', ArgDir 0]
             (InScratch 0 ''transcripts.fasta'') (next_dir ex_world)) = None
   \<and> fs (snd (invoke (ex_env (Returns None)) ex_tolerant 21 None
             [Arg ''--rna'', Arg ''--pe1-1'', Arg ''a_1.fq'', Arg ''--pe1-2'', Arg ''a_2.fq'',
              Arg ''-k'', Arg ''21'', Arg ''-m8'', Arg ''-t'', Arg ''4'', Arg ''-o'', ArgDir 0]
             (InScratch 0 ''transcripts.fasta'') (next_dir ex_world)))
        (InScratch 0 ''transcripts.fasta'') = Some []
   \<and> warnings (snd (invoke (ex_env (Returns None)) ex_tolerant 21 None
             [Arg ''--rna'', Arg ''--pe1-1'', Arg ''a_1.fq'', Arg ''--pe1-2'', Arg ''a_2.fq'',
              Arg ''-k'', Arg ''21'', Arg ''-m8'', Arg ''-t'', Arg ''4'', Arg ''-o'', ArgDir 0]
             (InScratch 0 ''transcripts.fasta'') (next_dir ex_world)))
       = [Message ''SPAdes failed to make transcripts.fasta for k=21'']
   \<and> (\<exists>loc'. fst (attempt (ex_env (Returns None)) ex_tolerant [lib_a] 21 None
                     (init_locals, ex_world)) = Inr loc')"
proof -
  let ?env = "ex_env (Returns None)"
  let ?a = "[Arg ''--rna'', Arg ''--pe1-1'', Arg ''a_1.fq'', Arg ''--pe1-2'', Arg ''a_2.fq'',
             Arg ''-k'', Arg ''21'', Arg ''-m8'', Arg ''-t'', Arg ''4'', Arg ''-o'', ArgDir 0]"
  let ?tf = "InScratch 0 ''transcripts.fasta''"
  have t: "tool ?env ?a = Returns None"
    by (simp add: ex_env_def)
  have f: "fs (next_dir ex_world) ?tf = None"
    by (simp add: next_dir_def ex_world_def)
  have a: "\<not> always_succeed ex_request" "always_succeed ex_tolerant"
    by (simp_all add: ex_defs2)
  have w: "warnings (next_dir ex_world) = []"
    by (simp add: next_dir_def ex_world_def)
  have old: "fs ex_world (Path (contigs_out ex_request)) = Some ''>old''"
    "fs ex_world (Path (contigs_out ex_tolerant)) = Some ''>old''"
    by (simp_all add: ex_defs2)
  have built: "build_args ex_request ex_world (tmp_dirs ex_world) [lib_a] 21 None = Inr ?a"
    "build_args ex_tolerant ex_world (tmp_dirs ex_world) [lib_a] 21 None = Inr ?a"
    by (simp_all add: run_eval ex_defs2)
  have msg: "missing_msg 21 = ''SPAdes failed to make transcripts.fasta for k=21''"
    by (simp add: missing_msg_def str_nat_values)
  note strict = missing_transcripts_detected [OF t f, of ex_request 21 None]
  note tolerant = missing_transcripts_detected [OF t f, of ex_tolerant 21 None]
  note strict_invoke = strict [THEN conjunct1]
    and strict_attempt = strict [THEN conjunct2, THEN conjunct2, THEN conjunct2, THEN conjunct2]
    and tolerant_invoke = tolerant [THEN conjunct1]
    and tolerant_attempt = tolerant [THEN conjunct2, THEN conjunct2, THEN conjunct2, THEN conjunct2]
  from strict_invoke a(1) have 1: "fst (invoke ?env ex_request 21 None ?a ?tf (next_dir ex_world))
      = Some (RuntimeError ''SPAdes failed to make transcripts.fasta for k=21'')"
    by (simp add: msg)
  from strict_attempt a(1) old(1) built(1)
  have 2: "fst (attempt ?env ex_request [lib_a] 21 None (init_locals, ex_world))
      = Inl (RuntimeError ''SPAdes failed to make transcripts.fasta for k=21'')"
    by (simp add: msg)
  from tolerant_invoke a(2) w
  have 3: "fst (invoke ?env ex_tolerant 21 None ?a ?tf (next_dir ex_world)) = None"
    "fs (snd (invoke ?env ex_tolerant 21 None ?a ?tf (next_dir ex_world))) ?tf = Some []"
    "warnings (snd (invoke ?env ex_tolerant 21 None ?a ?tf (next_dir ex_world)))
       = [Message ''SPAdes failed to make transcripts.fasta for k=21'']"
    by (simp_all add: msg)
  from tolerant_attempt a(2) old(2) built(2)
  have 4: "\<exists>loc'. fst (attempt ?env ex_tolerant [lib_a] 21 None (init_locals, ex_world)) = Inr loc'"
    by simp
  from t f a old built 1 2 3 4 show ?thesis
    by simp
qed

text \<open>
  Claim C8, as stated, fails for a call in meta mode whose first attempt fails while
  \<^verbatim>\<open>always_succeed\<close> is off: the exception ends the call after one invocation.
\<close>

theorem attempts_per_mode_counterexample:
  "qualifying (make_empty (Path (contigs_out ex_meta)) ex_world) [lib_a, lib_b] = [lib_a, lib_b]
   \<and> kmer_sizes ex_meta = [21] \<and> mode ex_meta = ''meta''
   \<and> fst (assemble (ex_env Raises) ex_meta [lib_a, lib_b] ex_world) = Some ExecuteError
   \<and> calls (snd (assemble (ex_env Raises) ex_meta [lib_a, lib_b] ex_world)) =
       [[Arg ''--meta'', Arg ''--pe1-1'', Arg ''a_1.fq'', Arg ''--pe1-2'', Arg ''a_2.fq'',
         Arg ''-k'', Arg ''21'', Arg ''-m8'', Arg ''-t'', Arg ''4'', Arg ''-o'', ArgDir 0]]"
  by (simp add: run_eval ex_defs2)

text \<open>
  Claim C8, amended: with two qualifying libraries and the single k-mer size 21, a call
  in rna mode makes exactly one invocation, which names both libraries, the first as
  \<^verbatim>\<open>--pe1\<close> and the second as \<^verbatim>\<open>--pe2\<close>; a call in meta mode makes one invocation
  for the first library alone, as \<^verbatim>\<open>--pe1\<close>, and then one for the second library alone,
  again as \<^verbatim>\<open>--pe1\<close>, unless \<^verbatim>\<open>always_succeed\<close> is off and the first invocation
  raises or leaves no transcripts file, in which case the first invocation is the only
  one. The unpaired reads of a library are named when they are a non-empty file.
\<close>

theorem attempts_per_mode:
  assumes libs: "qualifying (make_empty (Path (contigs_out rq)) w) libraries = [l1, l2]"
    and ks: "kmer_sizes rq = [21]"
    and run: "assemble env rq libraries w = (r, w')"
  shows "(mode rq = ''meta'' \<longrightarrow>
           (\<exists>u1 u2 a1 a2.
              a1 = [Arg ''--meta'', Arg ''--pe1-1'', Arg (reads_fwd l1), Arg ''--pe1-2'',
                    Arg (reads_bwd l1)] @ u1 @ common_args rq 21 (tmp_dirs w)
            \<and> a2 = [Arg ''--meta'', Arg ''--pe1-1'', Arg (reads_fwd l2), Arg ''--pe1-2'',
                    Arg (reads_bwd l2)] @ u2 @ common_args rq 21 (Suc (tmp_dirs w))
            \<and> (u1 = [] \<or> u1 = [Arg ''--pe1-s'', Arg (the (reads_unpaired l1))])
            \<and> (u2 = [] \<or> u2 = [Arg ''--pe1-s'', Arg (the (reads_unpaired l2))])
            \<and> calls w' = calls w @
                 (if \<not> always_succeed rq \<and> (tool env a1 = Raises \<or> tool env a1 = Returns None)
                  then [a1] else [a1, a2])))
       \<and> (mode rq = ''rna'' \<longrightarrow>
           (\<exists>u1 u2 a.
              a = [Arg ''--rna'', Arg ''--pe1-1'', Arg (reads_fwd l1), Arg ''--pe1-2'',
                   Arg (reads_bwd l1)] @ u1
                  @ [Arg ''--pe2-1'', Arg (reads_fwd l2), Arg ''--pe2-2'', Arg (reads_bwd l2)] @ u2
                  @ common_args rq 21 (tmp_dirs w)
            \<and> (u1 = [] \<or> u1 = [Arg ''--pe1-s'', Arg (the (reads_unpaired l1))])
            \<and> (u2 = [] \<or> u2 = [Arg ''--pe2-s'', Arg (the (reads_unpaired l2))])
            \<and> calls w' = calls w @ [a]))"
proof (intro conjI impI)
  let ?w1 = "make_empty (Path (contigs_out rq)) w"
  assume meta: "mode rq = ''meta''"
  then have valid: "valid_mode (mode rq)" and not_rna: "mode rq \<noteq> ''rna''"
    by (simp_all add: valid_mode_def)
  obtain u1 where a1: "pe_lib_args ?w1 0 l1 =
      [Arg ''--pe1-1'', Arg (reads_fwd l1), Arg ''--pe1-2'', Arg (reads_bwd l1)] @ u1"
    and u1: "u1 = [] \<or> u1 = [Arg ''--pe1-s'', Arg (the (reads_unpaired l1))]"
    using pe_lib_args_shape [of ?w1 0 l1] by (auto simp: str_nat_values)
  let ?a1 = "Arg ''--meta'' # pe_lib_args ?w1 0 l1 @ common_args rq 21 (tmp_dirs w)"
  have b1: "build_args rq ?w1 (tmp_dirs w) [l1, l2] 21 (Some l1) = Inr ?a1"
    using not_rna by (simp add: build_args_meta)
  have out1: "fs ?w1 (Path (contigs_out rq)) = Some []" by simp
  from assemble_run [OF valid _ run] libs ks obtain rr
    where k: "kmer_loop env rq [l1, l2] [21] (init_locals, ?w1) = (rr, w')"
    by auto
  obtain r1 w1' where at1: "attempt env rq [l1, l2] 21 (Some l1)
      (init_locals\<lparr>this_kmer_size_succeeded := False\<rparr>, ?w1) = (r1, w1')"
    by (cases "attempt env rq [l1, l2] 21 (Some l1)
      (init_locals\<lparr>this_kmer_size_succeeded := False\<rparr>, ?w1)")
  show "\<exists>u1 u2 a1 a2.
              a1 = [Arg ''--meta'', Arg ''--pe1-1'', Arg (reads_fwd l1), Arg ''--pe1-2'',
                    Arg (reads_bwd l1)] @ u1 @ common_args rq 21 (tmp_dirs w)
            \<and> a2 = [Arg ''--meta'', Arg ''--pe1-1'', Arg (reads_fwd l2), Arg ''--pe1-2'',
                    Arg (reads_bwd l2)] @ u2 @ common_args rq 21 (Suc (tmp_dirs w))
            \<and> (u1 = [] \<or> u1 = [Arg ''--pe1-s'', Arg (the (reads_unpaired l1))])
            \<and> (u2 = [] \<or> u2 = [Arg ''--pe1-s'', Arg (the (reads_unpaired l2))])
            \<and> calls w' = calls w @
                 (if \<not> always_succeed rq \<and> (tool env a1 = Raises \<or> tool env a1 = Returns None)
                  then [a1] else [a1, a2])"
  proof (cases "raw_transcripts env rq ?a1")
    case None
    then have ab: "\<not> always_succeed rq \<and> (tool env ?a1 = Raises \<or> tool env ?a1 = Returns None)"
      by (auto simp: raw_transcripts_def split: tool_result.splits option.splits if_splits)
    from at1 None have "calls w1' = calls w @ [?a1]" and "\<exists>e. r1 = Inl e"
      by (auto simp: attempt_unfold [OF out1] b1 next_dir_def)
    moreover with k meta at1 have "w' = w1'"
      by (auto simp: outer_libs_def)
    ultimately have "calls w' = calls w @ [?a1]" by simp
    note c = this
    show ?thesis
      apply (rule exI [of _ u1])
      apply (rule exI [of _ "[]"])
      using c ab a1 u1 by simp
  next
    case (Some c)
    then have ab: "\<not> (\<not> always_succeed rq \<and> (tool env ?a1 = Raises \<or> tool env ?a1 = Returns None))"
      by (auto simp: raw_transcripts_def split: tool_result.splits option.splits if_splits)
    from at1 Some obtain loc1 where r1: "r1 = Inr loc1"
      and c1: "calls w1' = calls w @ [?a1]" and d1: "tmp_dirs w1' = Suc (tmp_dirs w)"
      and o1: "fs w1' (Path (contigs_out rq)) = Some (merged env rq ?a1)"
      by (auto simp: attempt_unfold [OF out1] b1 next_dir_def)
    obtain u2 where a2: "pe_lib_args w1' 0 l2 =
        [Arg ''--pe1-1'', Arg (reads_fwd l2), Arg ''--pe1-2'', Arg (reads_bwd l2)] @ u2"
      and u2: "u2 = [] \<or> u2 = [Arg ''--pe1-s'', Arg (the (reads_unpaired l2))]"
      using pe_lib_args_shape [of w1' 0 l2] by (auto simp: str_nat_values)
    let ?a2 = "Arg ''--meta'' # pe_lib_args w1' 0 l2 @ common_args rq 21 (Suc (tmp_dirs w))"
    have b2: "build_args rq w1' (tmp_dirs w1') [l1, l2] 21 (Some l2) = Inr ?a2"
      using not_rna d1 by (simp add: build_args_meta)
    obtain r2 w2' where at2: "attempt env rq [l1, l2] 21 (Some l2) (loc1, w1') = (r2, w2')"
      by (cases "attempt env rq [l1, l2] 21 (Some l2) (loc1, w1')")
    have c2: "calls w2' = calls w @ [?a1, ?a2]"
      using at2 c1 by (auto simp: attempt_unfold [OF o1] b2 next_dir_def split: option.splits)
    have "w' = w2'"
    proof (cases r2)
      case (Inl e)
      with k meta at1 r1 at2 show ?thesis
        by (simp add: outer_libs_def)
    next
      case (Inr loc2)
      with at2 have "after_libs rq (loc2, w2') = Inr (True, loc2)"
        by (simp add: after_attempt_goes_on(1) [OF o1])
      with Inr k meta at1 r1 at2 show ?thesis
        by (simp add: outer_libs_def)
    qed
    note same = this
    show ?thesis
      apply (rule exI [of _ u1])
      apply (rule exI [of _ u2])
      using same c2 ab a1 u1 a2 u2 by simp
  qed
next
  let ?w1 = "make_empty (Path (contigs_out rq)) w"
  assume rna: "mode rq = ''rna''"
  then have valid: "valid_mode (mode rq)" and not_meta: "mode rq \<noteq> ''meta''"
    by (simp_all add: valid_mode_def)
  obtain u1 where a1: "pe_lib_args ?w1 0 l1 =
      [Arg ''--pe1-1'', Arg (reads_fwd l1), Arg ''--pe1-2'', Arg (reads_bwd l1)] @ u1"
    and u1: "u1 = [] \<or> u1 = [Arg ''--pe1-s'', Arg (the (reads_unpaired l1))]"
    using pe_lib_args_shape [of ?w1 0 l1] by (auto simp: str_nat_values)
  have two: "str_nat (Suc (Suc 0)) = ''2''"
    by code_simp
  obtain u2 where a2: "pe_lib_args ?w1 (Suc 0) l2 =
      [Arg ''--pe2-1'', Arg (reads_fwd l2), Arg ''--pe2-2'', Arg (reads_bwd l2)] @ u2"
    and u2: "u2 = [] \<or> u2 = [Arg ''--pe2-s'', Arg (the (reads_unpaired l2))]"
    using pe_lib_args_shape [of ?w1 "Suc 0" l2] by (auto simp: two)
  let ?a = "Arg ''--rna'' # (pe_lib_args ?w1 0 l1 @ pe_lib_args ?w1 (Suc 0) l2)
            @ common_args rq 21 (tmp_dirs w)"
  have b: "build_args rq ?w1 (tmp_dirs w) [l1, l2] 21 None = Inr ?a"
    using rna by (simp add: build_args_def attempt_libs_def)
  have out1: "fs ?w1 (Path (contigs_out rq)) = Some []" by simp
  from assemble_run [OF valid _ run] libs ks obtain rr
    where k: "kmer_loop env rq [l1, l2] [21] (init_locals, ?w1) = (rr, w')"
    by auto
  obtain r1 w1' where at1: "attempt env rq [l1, l2] 21 None
      (init_locals\<lparr>this_kmer_size_succeeded := False\<rparr>, ?w1) = (r1, w1')"
    by (cases "attempt env rq [l1, l2] 21 None
      (init_locals\<lparr>this_kmer_size_succeeded := False\<rparr>, ?w1)")
  have c1: "calls w1' = calls w @ [?a]"
    using at1 by (auto simp: attempt_unfold [OF out1] b next_dir_def split: option.splits)
  have "w' = w1'"
  proof (cases r1)
    case (Inl e)
    with k not_meta at1 show ?thesis
      by (simp add: outer_libs_def)
  next
    case (Inr loc1)
    with at1 have "after_libs rq (loc1, w1') = Inr (True, loc1)"
      by (simp add: after_attempt_goes_on(1) [OF out1])
    with Inr k not_meta at1 show ?thesis
      by (simp add: outer_libs_def)
  qed
  note same = this
  show "\<exists>u1 u2 a.
              a = [Arg ''--rna'', Arg ''--pe1-1'', Arg (reads_fwd l1), Arg ''--pe1-2'',
                   Arg (reads_bwd l1)] @ u1
                  @ [Arg ''--pe2-1'', Arg (reads_fwd l2), Arg ''--pe2-2'', Arg (reads_bwd l2)] @ u2
                  @ common_args rq 21 (tmp_dirs w)
            \<and> (u1 = [] \<or> u1 = [Arg ''--pe1-s'', Arg (the (reads_unpaired l1))])
            \<and> (u2 = [] \<or> u2 = [Arg ''--pe2-s'', Arg (the (reads_unpaired l2))])
            \<and> calls w' = calls w @ [a]"
    apply (rule exI [of _ u1])
    apply (rule exI [of _ u2])
    using same c1 a1 u1 a2 u2 by simp
qed

theorem attempts_per_mode_witness:
  "qualifying (make_empty (Path (contigs_out ex_meta)) ex_world) [lib_a, lib_b] = [lib_a, lib_b]
   \<and> qualifying (make_empty (Path (contigs_out ex_rna)) ex_world) [lib_a, lib_b] = [lib_a, lib_b]
   \<and> kmer_sizes ex_meta = [21] \<and> mode ex_meta = ''meta''
   \<and> kmer_sizes ex_rna = [21] \<and> mode ex_rna = ''rna''
   \<and> length (calls (snd (assemble (ex_env (Returns (Some ex_contigs))) ex_meta [lib_a, lib_b]
         ex_world))) = 2
   \<and> length (calls (snd (assemble (ex_env (Returns (Some ex_contigs))) ex_rna [lib_a, lib_b]
         ex_world))) = 1"
proof -
  let ?env = "ex_env (Returns (Some ex_contigs))"
  have qm: "qualifying (make_empty (Path (contigs_out ex_meta)) ex_world) [lib_a, lib_b]
            = [lib_a, lib_b]"
    and qr: "qualifying (make_empty (Path (contigs_out ex_rna)) ex_world) [lib_a, lib_b]
            = [lib_a, lib_b]"
    by (simp_all add: run_eval ex_defs2)
  have km: "kmer_sizes ex_meta = [21]" and mm: "mode ex_meta = ''meta''"
    and kr: "kmer_sizes ex_rna = [21]" and mr: "mode ex_rna = ''rna''"
    by (simp_all add: ex_defs2)
  have t: "\<And>a. tool ?env a = Returns (Some ex_contigs)"
    by (simp add: ex_env_def)
  have cw: "calls ex_world = []"
    by (simp add: ex_world_def)
  from attempts_per_mode [OF qm km prod.collapse [symmetric], of ?env] mm
  have "length (calls (snd (assemble ?env ex_meta [lib_a, lib_b] ex_world))) = 2"
    by (auto simp: t cw)
  moreover
  from attempts_per_mode [OF qr kr prod.collapse [symmetric], of ?env] mr
  have "length (calls (snd (assemble ?env ex_rna [lib_a, lib_b] ex_world))) = 1"
    by (auto simp: cw)
  ultimately show ?thesis
    using qm qr km mm kr mr by simp
qed

text \<open>
  Claim C9, as stated, fails for a call that is given no k-mer size: no attempt is
  made, so no argument list is built and the bound is not checked; the call returns
  normally, even in rna mode with ten qualifying libraries.
\<close>

theorem library_index_bound_counterexample:
  "mode ex_no_kmers = ''rna''
   \<and> length (qualifying (make_empty (Path (contigs_out ex_no_kmers)) ex_world) ex_ten_libs) = 10
   \<and> fst (assemble (ex_env Raises) ex_no_kmers ex_ten_libs ex_world) = None
   \<and> calls (snd (assemble (ex_env Raises) ex_no_kmers ex_ten_libs ex_world)) = []"
  by (simp add: run_eval ex_defs2 ex_no_kmers_def ex_ten_libs_def)

text \<open>
  Claim C9, amended: in a call with a valid mode, if the mode is rna, more than nine
  libraries qualify and there is at least one k-mer size, the call raises the
  \<^verbatim>\<open>AssertionError\<close> of line 104 and no invocation has been made, whatever
  \<^verbatim>\<open>always_succeed\<close> says; if the mode is rna and at most nine libraries qualify, or if
  the mode is meta, the call never raises that error.
\<close>

theorem library_index_bound:
  assumes valid: "valid_mode (mode rq)"
    and run: "assemble env rq libraries w = (r, w')"
  shows "(mode rq = ''rna''
            \<and> 9 < length (qualifying (make_empty (Path (contigs_out rq)) w) libraries)
            \<and> kmer_sizes rq \<noteq> []
          \<longrightarrow> r = Some (AssertionError []) \<and> calls w' = calls w)
       \<and> (mode rq = ''rna''
            \<and> length (qualifying (make_empty (Path (contigs_out rq)) w) libraries) \<le> 9
          \<longrightarrow> r \<noteq> Some (AssertionError []))
       \<and> (mode rq = ''meta'' \<longrightarrow> r \<noteq> Some (AssertionError []))"
proof -
  let ?w1 = "make_empty (Path (contigs_out rq)) w"
  let ?libs = "qualifying ?w1 libraries"
  have many: "r = Some (AssertionError []) \<and> calls w' = calls w"
    if "mode rq = ''rna''" and "9 < length ?libs" and "kmer_sizes rq \<noteq> []"
  proof -
    from that obtain k ks where ks: "kmer_sizes rq = k # ks"
      by (cases "kmer_sizes rq") auto
    from that have ne: "?libs \<noteq> []" by auto
    from assemble_run [OF valid ne run] obtain rr
      where kl: "kmer_loop env rq ?libs (kmer_sizes rq) (init_locals, ?w1) = (rr, w')"
        and r: "r = (case rr of Inl e \<Rightarrow> Some e | Inr loc \<Rightarrow> None)"
      by blast
    from kl have "(Inl (AssertionError []), next_dir ?w1) = (rr, w')"
      unfolding ks kmer_loop_rna_too_many [OF that(1) that(2)] .
    with r show ?thesis
      by (auto simp: next_dir_def)
  qed
  have few: "r \<noteq> Some (AssertionError [])" if "mode rq = ''rna'' \<longrightarrow> length ?libs \<le> 9"
  proof (cases "?libs = []")
    case True
    with run valid show ?thesis by (simp add: assemble_def Let_def)
  next
    case False
    obtain rr w2 where k: "kmer_loop env rq ?libs (kmer_sizes rq) (init_locals, ?w1) = (rr, w2)"
      by (cases "kmer_loop env rq ?libs (kmer_sizes rq) (init_locals, ?w1)")
    have out: "fs ?w1 (Path (contigs_out rq)) = Some []" by simp
    from False have ne: "outer_libs rq ?libs \<noteq> []"
      by (simp add: outer_libs_def)
    have ok: "\<forall>lib\<in>set (outer_libs rq ?libs). \<forall>w d k.
                \<exists>args. build_args rq w d ?libs k lib = Inr args"
      using outer_build_ok [OF valid that] by blast
    from kmer_loop_built [OF out ne ok k]
    have "(\<exists>k a. rr = Inl (abort_error env k a)) \<or> (\<exists>loc'. rr = Inr loc')" by blast
    moreover from run valid False k have "r = (case rr of Inl e \<Rightarrow> Some e | Inr loc \<Rightarrow> None)"
      by (simp add: assemble_def Let_def split: sum.splits)
    ultimately show ?thesis
      by (auto simp: abort_error_def split: if_splits)
  qed
  from many few show ?thesis by auto
qed

theorem library_index_bound_witness:
  "valid_mode (mode ex_request) \<and> mode ex_request = ''rna'' \<and> kmer_sizes ex_request \<noteq> []
   \<and> 9 < length (qualifying (make_empty (Path (contigs_out ex_request)) ex_world) ex_ten_libs)
   \<and> fst (assemble (ex_env (Returns (Some ex_contigs))) ex_request ex_ten_libs ex_world)
       = Some (AssertionError [])
   \<and> calls (snd (assemble (ex_env (Returns (Some ex_contigs))) ex_request ex_ten_libs ex_world))
       = calls ex_world
   \<and> length (qualifying (make_empty (Path (contigs_out ex_request)) ex_world) [lib_a]) \<le> 9
   \<and> fst (assemble (ex_env (Returns (Some ex_contigs))) ex_request [lib_a] ex_world)
       \<noteq> Some (AssertionError [])
   \<and> valid_mode (mode ex_meta) \<and> mode ex_meta = ''meta''
   \<and> fst (assemble (ex_env (Returns (Some ex_contigs))) ex_meta ex_ten_libs ex_world)
       \<noteq> Some (AssertionError [])"
proof -
  let ?env = "ex_env (Returns (Some ex_contigs))"
  have v: "valid_mode (mode ex_request)" "valid_mode (mode ex_meta)"
    and m: "mode ex_request = ''rna''" "mode ex_meta = ''meta''"
    and k: "kmer_sizes ex_request \<noteq> []"
    by (simp_all add: valid_mode_def ex_defs2)
  have ten: "9 < length (qualifying (make_empty (Path (contigs_out ex_request)) ex_world) ex_ten_libs)"
    and one: "length (qualifying (make_empty (Path (contigs_out ex_request)) ex_world) [lib_a]) \<le> 9"
    by (simp_all add: run_eval ex_defs2 ex_ten_libs_def)
  from library_index_bound [where env = ?env and libraries = ex_ten_libs and w = ex_world,
      OF v(1) prod.collapse [symmetric]] m k ten
  have 1: "fst (assemble ?env ex_request ex_ten_libs ex_world) = Some (AssertionError [])"
    "calls (snd (assemble ?env ex_request ex_ten_libs ex_world)) = calls ex_world"
    by simp_all
  from library_index_bound [where env = ?env and libraries = "[lib_a]" and w = ex_world,
      OF v(1) prod.collapse [symmetric]] m one
  have 2: "fst (assemble ?env ex_request [lib_a] ex_world) \<noteq> Some (AssertionError [])"
    by simp
  from library_index_bound [where env = ?env and libraries = ex_ten_libs and w = ex_world,
      OF v(2) prod.collapse [symmetric]] m
  have 3: "fst (assemble ?env ex_meta ex_ten_libs ex_world) \<noteq> Some (AssertionError [])"
    by simp
  from v m k ten one 1 2 3 show ?thesis by simp
qed

text \<open>
  Claim C10. With a valid mode, a call behaves in every respect as the same call on a
  world where \<^verbatim>\<open>contigs_out\<close> is already empty, whatever the file held before and
  whether it was there at all; the truncation comes before the libraries are filtered
  and before any attempt. At the end \<^verbatim>\<open>contigs_out\<close> holds what the attempts of this call
  merged, in order, and nothing else.
\<close>

theorem contigs_out_truncated_first:
  assumes "valid_mode (mode rq)"
  shows "assemble env rq libraries (w\<lparr>fs := (fs w)(Path (contigs_out rq) := old)\<rparr>)
           = assemble env rq libraries (make_empty (Path (contigs_out rq)) w)
       \<and> (\<forall>r w'. assemble env rq libraries w = (r, w') \<longrightarrow>
            (\<exists>new. calls w' = calls w @ new
               \<and> fs w' (Path (contigs_out rq)) = Some (concat (map (merged env rq) new))))"
proof (intro conjI allI impI)
  have e: "make_empty (Path (contigs_out rq)) (w\<lparr>fs := (fs w)(Path (contigs_out rq) := old)\<rparr>)
        = make_empty (Path (contigs_out rq)) w"
    "make_empty (Path (contigs_out rq)) (make_empty (Path (contigs_out rq)) w)
        = make_empty (Path (contigs_out rq)) w"
    by (simp_all add: make_empty_def)
  show "assemble env rq libraries (w\<lparr>fs := (fs w)(Path (contigs_out rq) := old)\<rparr>)
           = assemble env rq libraries (make_empty (Path (contigs_out rq)) w)"
    using assms by (simp only: assemble_def e) simp
next
  fix r w'
  assume "assemble env rq libraries w = (r, w')"
  from assemble_calls [OF this] assms obtain new
    where "calls w' = calls w @ map args_of new"
      and "fs w' (Path (contigs_out rq)) = Some (concat (map (\<lambda>a. merged env rq (args_of a)) new))"
    by auto
  then show "\<exists>new. calls w' = calls w @ new
      \<and> fs w' (Path (contigs_out rq)) = Some (concat (map (merged env rq) new))"
    by (intro exI [of _ "map args_of new"]) (simp add: comp_def)
qed

theorem contigs_out_truncated_first_witness:
  "valid_mode (mode ex_request)
   \<and> fs ex_world (Path ''out.fa'') = Some ''>old''
   \<and> assemble (ex_env (Returns (Some ex_contigs))) ex_request [lib_a]
        (ex_world\<lparr>fs := (fs ex_world)(Path ''out.fa'' := None)\<rparr>)
       = assemble (ex_env (Returns (Some ex_contigs))) ex_request [lib_a]
           (make_empty (Path ''out.fa'') ex_world)
   \<and> (\<exists>new. calls (snd (assemble (ex_env (Returns (Some ex_contigs))) ex_request [lib_a] ex_world))
               = calls ex_world @ new
          \<and> fs (snd (assemble (ex_env (Returns (Some ex_contigs))) ex_request [lib_a] ex_world))
               (Path ''out.fa'')
              = Some (concat (map (merged (ex_env (Returns (Some ex_contigs))) ex_request) new)))"
proof -
  have valid: "valid_mode (mode ex_request)"
    by (simp add: valid_mode_def ex_request_def)
  have out: "contigs_out ex_request = ''out.fa''"
    by (simp add: ex_request_def)
  have old: "fs ex_world (Path ''out.fa'') = Some ''>old''"
    by (simp add: ex_world_def)
  from contigs_out_truncated_first [OF valid, of "ex_env (Returns (Some ex_contigs))" "[lib_a]"
      ex_world None]
  show ?thesis
    using valid old unfolding out by (metis prod.collapse)
qed

end
